theory Spec2Isabelle
  imports Complex_Main
begin

section \<open>Path traversal of the swerve autonomous command\<close>

text \<open>
  A shallow embedding of class \<open>PathTraverser\<close> of
  \<^verbatim>\<open>src/commands/SwerveAutoCommand.py\<close>. Python floats are idealised as
  \<^typ>\<open>real\<close>: the properties below compare and add times, they do not depend on
  rounding. Callbacks are opaque: a callback is known by its identity, and invoking
  it is recorded in the list of calls an operation returns.
\<close>

subsection \<open>Errors\<close>

datatype py_error = IndexError

subsection \<open>The timer of the robot library\<close>

text \<open>
  \<open>wpilib.Timer\<close> is library code. Its documented behaviour: a timer accumulates
  time while it runs; \<open>get\<close> returns the accumulated time, plus the time since the
  last start when running; \<open>reset\<close> clears the accumulated time and restarts the
  measurement from the current instant; \<open>start\<close> does nothing on a running timer. A
  new timer is stopped with nothing accumulated. Every operation reads the FPGA
  timestamp, which the model takes as the argument \<open>now\<close>. A stopped timer's start
  timestamp is overwritten by \<open>start\<close> before anything reads it, so the model
  keeps a start timestamp only while the timer runs.
\<close>

datatype Timer = Stopped real | Running real real

definition new_Timer :: Timer where
  "new_Timer = Stopped 0"

fun timer_get :: "real \<Rightarrow> Timer \<Rightarrow> real" where
  "timer_get now (Stopped acc) = acc"
| "timer_get now (Running st acc) = acc + (now - st)"

fun timer_reset :: "real \<Rightarrow> Timer \<Rightarrow> Timer" where
  "timer_reset now (Stopped acc) = Stopped 0"
| "timer_reset now (Running st acc) = Running now 0"

fun timer_start :: "real \<Rightarrow> Timer \<Rightarrow> Timer" where
  "timer_start now (Stopped acc) = Running now acc"
| "timer_start now (Running st acc) = Running st acc"

fun is_running :: "Timer \<Rightarrow> bool" where
  "is_running (Stopped acc) = False"
| "is_running (Running st acc) = True"

subsection \<open>Data of the path library\<close>

text \<open>
  The values \<open>PathPlanner.loadPathGroup\<close> returns, with the attributes and getters
  the source reads. A trajectory is immutable here: \<open>getMarkers\<close> hands out a fresh
  list on every call, so popping from that list does not change the trajectory.
  Attributes of the same name in two classes carry a prefix here (\<open>em_\<close> for the
  marker's \<open>time\<close> and \<open>names\<close>, \<open>se_\<close> for the stop event's, \<open>st_\<close> for a
  state's), and the trajectory's method \<open>sample\<close> is \<open>traj_sample\<close>.
\<close>

record EventMarker =
  em_time :: real
  em_names :: "string list"

datatype WaitBehavior = WaitNone | WaitDeadline | WaitMinimum

record StopEvent =
  se_names :: "string list"
  se_waitBehavior :: WaitBehavior
  se_waitTime :: real

record Pose2d =
  pose_x :: real
  pose_y :: real
  pose_rotation :: real

record State =
  st_time :: real
  st_velocity :: real
  st_pose :: Pose2d

record PathPlannerState = State +
  holonomicRotation :: real

definition asWPILibState :: "PathPlannerState \<Rightarrow> State" where
  "asWPILibState s = \<lparr>st_time = st_time s, st_velocity = st_velocity s, st_pose = st_pose s\<rparr>"

record PathPlannerTrajectory =
  getTotalTime :: real
  getMarkers :: "EventMarker list"
  getEndStopEvent :: StopEvent
  getInitialState :: PathPlannerState
  traj_sample :: "real \<Rightarrow> PathPlannerState"

subsection \<open>State of the class and of an instance\<close>

type_synonym callback = string

text \<open>
  The three attributes the class body declares. Every instance reads them through
  \<open>self\<close>; \<open>on\<close>, \<open>on_stop\<close>, \<open>del\<close>, \<open>remove\<close> and \<open>pop\<close> mutate the object
  they find there.
\<close>

record PathTraverser_class =
  event_callbacks :: "string \<rightharpoonup> callback"
  stop_event_callbacks :: "callback list"
  event_markers :: "EventMarker list"

text \<open>
  The attributes of one instance. \<open>self_event_markers\<close> is the instance attribute
  \<open>event_markers\<close>: \<open>None\<close> until \<open>move_to_next_path\<close> assigns it, and from then on
  it shadows the class attribute of that name.
\<close>

record PathTraverser =
  path_group :: "PathPlannerTrajectory list"
  current_path_index :: nat
  current_path :: PathPlannerTrajectory
  stop_event :: StopEvent
  current_path_initial_state :: State
  timer :: Timer
  paths_traversed :: bool
  total_time :: real
  iterations :: nat
  self_event_markers :: "EventMarker list option"

datatype call =
  EventCall callback EventMarker
| StopCall callback StopEvent

text \<open>What \<open>self.event_markers\<close> evaluates to: the instance attribute when set, the class attribute otherwise.\<close>

definition get_event_markers :: "PathTraverser_class \<Rightarrow> PathTraverser \<Rightarrow> EventMarker list" where
  "get_event_markers cls self =
     (case self_event_markers self of Some ms \<Rightarrow> ms | None \<Rightarrow> event_markers cls)"

text \<open>\<open>self.event_markers.pop(0)\<close> on a non-empty list: the list object found is mutated in place.\<close>

definition pop_event_marker :: "PathTraverser_class \<Rightarrow> PathTraverser \<Rightarrow> PathTraverser_class \<times> PathTraverser" where
  "pop_event_marker cls self =
     (case self_event_markers self of
        Some ms \<Rightarrow> (cls, self\<lparr>self_event_markers := Some (tl ms)\<rparr>)
      | None \<Rightarrow> (cls\<lparr>event_markers := tl (event_markers cls)\<rparr>, self))"

subsection \<open>Construction and reset\<close>

definition get_initial_state :: "PathTraverser \<Rightarrow> State" where
  "get_initial_state self = asWPILibState (getInitialState (current_path self))"

text \<open>\<open>reset\<close> reads \<open>path_group[0]\<close>, which raises on an empty list.\<close>

definition reset :: "PathTraverser \<Rightarrow> py_error + PathTraverser" where
  "reset self =
     (case path_group self of
        [] \<Rightarrow> Inl IndexError
      | p # ps \<Rightarrow>
          (let s1 = self\<lparr>current_path_index := 0\<rparr>;
               s2 = s1\<lparr>current_path := p\<rparr>;
               s3 = s2\<lparr>stop_event := getEndStopEvent (current_path s2)\<rparr>;
               s4 = s3\<lparr>current_path_initial_state := get_initial_state s3\<rparr>;
               s5 = s4\<lparr>timer := new_Timer\<rparr>;
               s6 = s5\<lparr>paths_traversed := False\<rparr>;
               s7 = s6\<lparr>total_time := 0\<rparr>
           in Inr (s7\<lparr>iterations := 0\<rparr>)))"

text \<open>
  The object \<open>__init__\<close> has built when it calls \<open>reset\<close>: only \<open>path_group\<close> is
  assigned. The other fields stand for attributes not yet set; \<open>reset\<close> assigns
  every one of them except \<open>event_markers\<close>, which stays the class attribute.
\<close>

definition unset_traverser :: "PathPlannerTrajectory list \<Rightarrow> PathPlannerTrajectory \<Rightarrow> PathTraverser" where
  "unset_traverser pg p =
     \<lparr>path_group = pg, current_path_index = 0, current_path = p,
      stop_event = getEndStopEvent p,
      current_path_initial_state = asWPILibState (getInitialState p),
      timer = new_Timer, paths_traversed = False, total_time = 0, iterations = 0,
      self_event_markers = None\<rparr>"

text \<open>
  \<open>__init__\<close>, from the list \<open>loadPathGroup\<close> returned: it prints
  \<open>path_group[0].getInitialPose()\<close> and \<open>path_group[-1].getEndState().pose\<close> (both
  raise on an empty list), stores the list and resets.
\<close>

definition init :: "PathPlannerTrajectory list \<Rightarrow> py_error + PathTraverser" where
  "init pg =
     (case pg of
        [] \<Rightarrow> Inl IndexError
      | p # ps \<Rightarrow> reset (unset_traverser pg p))"

definition start_timer :: "real \<Rightarrow> PathTraverser \<Rightarrow> PathTraverser" where
  "start_timer now self = self\<lparr>timer := timer_start now (timer self)\<rparr>"

subsection \<open>Event markers\<close>

text \<open>
  \<open>get_new_event_marker\<close>. The read \<open>self.event_markers[0]\<close> is a Python index
  and raises out of range, so the result is a sum.
\<close>

definition py_index0 :: "'a list \<Rightarrow> py_error + 'a" where
  "py_index0 xs = (case xs of [] \<Rightarrow> Inl IndexError | x # _ \<Rightarrow> Inr x)"

definition get_new_event_marker ::
  "real \<Rightarrow> PathTraverser_class \<Rightarrow> PathTraverser \<Rightarrow>
   py_error + (EventMarker option \<times> PathTraverser_class \<times> PathTraverser)" where
  "get_new_event_marker now cls self =
     (if length (get_event_markers cls self) = 0 then Inr (None, cls, self)
      else case py_index0 (get_event_markers cls self) of
        Inl e \<Rightarrow> Inl e
      | Inr event_marker \<Rightarrow>
          if em_time event_marker \<le> timer_get now (timer self)
          then (case pop_event_marker cls self of (cls', self') \<Rightarrow> Inr (Some event_marker, cls', self'))
          else Inr (None, cls, self))"

text \<open>
  The loop over \<open>event_marker.names\<close> in \<open>sample\<close>: a name bound in the table calls
  its callback with the marker and deletes the binding.
\<close>

fun dispatch_names ::
  "EventMarker \<Rightarrow> string list \<Rightarrow> (string \<rightharpoonup> callback) \<Rightarrow> (string \<rightharpoonup> callback) \<times> call list" where
  "dispatch_names em [] cbs = (cbs, [])"
| "dispatch_names em (name # rest) cbs =
     (case cbs name of
        None \<Rightarrow> dispatch_names em rest cbs
      | Some cb \<Rightarrow>
          (case dispatch_names em rest (cbs(name := None)) of
             (cbs', calls) \<Rightarrow> (cbs', EventCall cb em # calls)))"

subsection \<open>Stop events\<close>

text \<open>
  The loop \<open>for stop_callback in self.stop_event_callbacks\<close>, whose body removes the
  callback from the list it iterates. Python's list iterator keeps a position \<open>k\<close>:
  each round it stops when \<open>k\<close> is no longer below the current length, and otherwise
  yields the element at \<open>k\<close> and moves on. \<open>remove\<close> deletes the first element equal
  to its argument.
\<close>

function stop_loop :: "StopEvent \<Rightarrow> nat \<Rightarrow> callback list \<Rightarrow> callback list \<times> call list" where
  "stop_loop ev k cbs =
     (if k < length cbs
      then (case stop_loop ev (Suc k) (remove1 (cbs ! k) cbs) of
              (cbs', calls) \<Rightarrow> (cbs', StopCall (cbs ! k) ev # calls))
      else (cbs, []))"
  by pat_completeness auto
termination
  by (relation "measure (\<lambda>(ev, k, cbs). length cbs - k)") (auto simp: length_remove1)

declare stop_loop.simps [simp del]

subsection \<open>Moving on and sampling\<close>

text \<open>The FPGA timestamps one call of \<open>sample\<close> reads, in the order of the reads.\<close>

record fpga =
  at_get :: real
  at_marker :: real
  at_total :: real
  at_reset :: real
  at_start :: real

definition move_to_next_path :: "fpga \<Rightarrow> PathTraverser \<Rightarrow> PathTraverser" where
  "move_to_next_path t self =
     (if current_path_index self + 1 \<ge> length (path_group self)
      then self\<lparr>paths_traversed := True\<rparr>
      else
        (let s1 = self\<lparr>current_path_index := current_path_index self + 1\<rparr>;
             s2 = s1\<lparr>current_path := path_group s1 ! current_path_index s1\<rparr>;
             s3 = s2\<lparr>total_time := total_time s2 + timer_get (at_total t) (timer s2)\<rparr>;
             s4 = s3\<lparr>timer := timer_reset (at_reset t) (timer s3)\<rparr>;
             s5 = s4\<lparr>timer := timer_start (at_start t) (timer s4)\<rparr>;
             s6 = s5\<lparr>self_event_markers := Some (getMarkers (current_path s5))\<rparr>
         in s6\<lparr>stop_event := getEndStopEvent (current_path s6)\<rparr>))"

type_synonym sample_result =
  "PathPlannerState option \<times> call list \<times> PathTraverser_class \<times> PathTraverser"

definition sample :: "fpga \<Rightarrow> PathTraverser_class \<Rightarrow> PathTraverser \<Rightarrow> py_error + sample_result" where
  "sample t cls self =
     (if paths_traversed self then Inr (None, [], cls, self)
      else
        (let total = getTotalTime (current_path self);
             time = timer_get (at_get t) (timer self)
         in case get_new_event_marker (at_marker t) cls self of
              Inl e \<Rightarrow> Inl e
            | Inr (event_marker, cls1, self1) \<Rightarrow>
                (case (case event_marker of
                         None \<Rightarrow> (event_callbacks cls1, [])
                       | Some em \<Rightarrow> dispatch_names em (em_names em) (event_callbacks cls1)) of
                   (cbs, calls1) \<Rightarrow>
                     (case (if time > total
                            then (case stop_loop (stop_event self1) 0 (stop_event_callbacks cls1) of
                                    (scbs, calls2) \<Rightarrow> (scbs, calls2, move_to_next_path t self1))
                            else (stop_event_callbacks cls1, [], self1)) of
                        (scbs, calls2, self2) \<Rightarrow>
                          (let self3 = self2\<lparr>iterations := iterations self2 + 1\<rparr>
                           in Inr (Some (traj_sample (current_path self3) time),
                                   calls1 @ calls2,
                                   cls1\<lparr>event_callbacks := cbs, stop_event_callbacks := scbs\<rparr>,
                                   self3))))))"

text \<open>What the marker step of \<open>sample\<close> invokes and leaves of the callback table.\<close>

definition marker_calls :: "EventMarker option \<Rightarrow> (string \<rightharpoonup> callback) \<Rightarrow> (string \<rightharpoonup> callback) \<times> call list" where
  "marker_calls event_marker cbs =
     (case event_marker of None \<Rightarrow> (cbs, []) | Some em \<Rightarrow> dispatch_names em (em_names em) cbs)"

text \<open>
  The elements of a list in the order of their first occurrences, each once: the
  order in which the loop over a marker's names meets a name for the first time.
\<close>

fun first_occurrences :: "'a list \<Rightarrow> 'a list" where
  "first_occurrences [] = []"
| "first_occurrences (x # xs) = x # filter (\<lambda>y. y \<noteq> x) (first_occurrences xs)"

subsection \<open>Registration\<close>

definition on :: "string \<Rightarrow> callback \<Rightarrow> PathTraverser_class \<Rightarrow> PathTraverser_class" where
  "on name func cls = cls\<lparr>event_callbacks := (event_callbacks cls)(name \<mapsto> func)\<rparr>"

definition on_stop :: "callback \<Rightarrow> PathTraverser_class \<Rightarrow> PathTraverser_class" where
  "on_stop func cls = cls\<lparr>stop_event_callbacks := stop_event_callbacks cls @ [func]\<rparr>"

subsection \<open>Sequences of calls\<close>

text \<open>
  The calls a command makes on a traverser, and what it observes of each: the value
  every \<open>sample\<close> returns and the callbacks invoked, in order. \<open>execute\<close> of
  \<open>SwerveAutoCommand\<close> is \<open>StartTimer\<close> followed by \<open>Sample\<close>; its \<open>initialize\<close>
  calls \<open>Reset\<close>. An exception ends the run.
\<close>

datatype op =
  Reset
| StartTimer real
| Sample fpga
| On string callback
| OnStop callback

datatype observed =
  Invoked call
| Returned "PathPlannerState option"

type_synonym world = "PathTraverser_class \<times> PathTraverser"

fun step :: "op \<Rightarrow> world \<Rightarrow> py_error + (observed list \<times> world)" where
  "step Reset (cls, self) =
     (case reset self of Inl e \<Rightarrow> Inl e | Inr self' \<Rightarrow> Inr ([], cls, self'))"
| "step (StartTimer now) (cls, self) = Inr ([], cls, start_timer now self)"
| "step (Sample t) (cls, self) =
     (case sample t cls self of
        Inl e \<Rightarrow> Inl e
      | Inr (r, calls, cls', self') \<Rightarrow> Inr (map Invoked calls @ [Returned r], cls', self'))"
| "step (On name func) (cls, self) = Inr ([], on name func cls, self)"
| "step (OnStop func) (cls, self) = Inr ([], on_stop func cls, self)"

fun run :: "op list \<Rightarrow> world \<Rightarrow> observed list \<times> (py_error + world)" where
  "run [] w = ([], Inr w)"
| "run (x # xs) w =
     (case step x w of
        Inl e \<Rightarrow> ([], Inl e)
      | Inr (obs, w') \<Rightarrow> (case run xs w' of (obs', r) \<Rightarrow> (obs @ obs', r)))"

text \<open>Constructing a traverser from a loaded path group, then making the calls.\<close>

definition construct_and_run ::
  "PathPlannerTrajectory list \<Rightarrow> op list \<Rightarrow> PathTraverser_class \<Rightarrow> observed list \<times> (py_error + world)" where
  "construct_and_run pg ops cls =
     (case init pg of Inl e \<Rightarrow> ([], Inl e) | Inr self \<Rightarrow> run ops (cls, self))"

text \<open>The class attributes as the class body leaves them.\<close>

definition class_body :: PathTraverser_class where
  "class_body = \<lparr>event_callbacks = Map.empty, stop_event_callbacks = [], event_markers = []\<rparr>"

subsection \<open>Elapsed time and completed paths\<close>

text \<open>The sum of the total times of the paths before the current one.\<close>

definition completed_durations :: "PathTraverser \<Rightarrow> real" where
  "completed_durations self =
     sum_list (map getTotalTime (take (current_path_index self) (path_group self)))"

text \<open>
  The clock does not run backwards during a call of \<open>sample\<close>: the read in
  \<open>move_to_next_path\<close> is not earlier than the read at the top of \<open>sample\<close>.
\<close>

fun clock_ok :: "op \<Rightarrow> bool" where
  "clock_ok (Sample t) = (at_get t \<le> at_total t)"
| "clock_ok x = True"

text \<open>The current path is the one the index names.\<close>

definition on_path :: "PathTraverser \<Rightarrow> bool" where
  "on_path self =
     (current_path_index self < length (path_group self)
      \<and> current_path self = path_group self ! current_path_index self)"

text \<open>
  What holds of \<open>total_time\<close> in every state a run reaches: nothing is added before
  the first move, and afterwards it exceeds the completed paths' total times.
\<close>

definition time_inv :: "PathTraverser \<Rightarrow> bool" where
  "time_inv self =
     (on_path self
      \<and> (if current_path_index self = 0 then total_time self = 0
          else completed_durations self < total_time self))"

text \<open>Whether a call is a \<open>sample\<close>.\<close>

fun is_Sample :: "op \<Rightarrow> bool" where
  "is_Sample (Sample t) = True"
| "is_Sample x = False"

subsection \<open>A path group to run\<close>

text \<open>
  Two trajectories: the first lasts 2 s and has a marker at 1 s, the second lasts 3 s
  and has markers at 1 s and at 1.5 s.
\<close>

definition ex_state :: "real \<Rightarrow> real \<Rightarrow> PathPlannerState" where
  "ex_state x0 t =
     \<lparr>st_time = t, st_velocity = 1,
      st_pose = \<lparr>pose_x = x0 + t, pose_y = 0, pose_rotation = 0\<rparr>,
      holonomicRotation = 0\<rparr>"

definition ex_stop :: "string \<Rightarrow> StopEvent" where
  "ex_stop n = \<lparr>se_names = [n], se_waitBehavior = WaitNone, se_waitTime = 0\<rparr>"

definition ex_marker0 :: EventMarker where
  "ex_marker0 = \<lparr>em_time = 1, em_names = [''intake'']\<rparr>"

definition ex_marker1 :: EventMarker where
  "ex_marker1 = \<lparr>em_time = 1, em_names = [''raise'', ''hold'', ''raise'']\<rparr>"

definition ex_marker2 :: EventMarker where
  "ex_marker2 = \<lparr>em_time = 3 / 2, em_names = [''drop'']\<rparr>"

definition ex_path0 :: PathPlannerTrajectory where
  "ex_path0 =
     \<lparr>getTotalTime = 2, getMarkers = [ex_marker0], getEndStopEvent = ex_stop ''first'',
      getInitialState = ex_state 0 0, traj_sample = ex_state 0\<rparr>"

definition ex_path1 :: PathPlannerTrajectory where
  "ex_path1 =
     \<lparr>getTotalTime = 3, getMarkers = [ex_marker1, ex_marker2], getEndStopEvent = ex_stop ''second'',
      getInitialState = ex_state 2 0, traj_sample = ex_state 2\<rparr>"

definition ex_group :: "PathPlannerTrajectory list" where
  "ex_group = [ex_path0, ex_path1]"

text \<open>One call of \<open>sample\<close> whose clock reads all happen at the instant \<open>now\<close>.\<close>

definition at_instant :: "real \<Rightarrow> fpga" where
  "at_instant now = \<lparr>at_get = now, at_marker = now, at_total = now, at_reset = now, at_start = now\<rparr>"

text \<open>A class state with two event callbacks and two stop callbacks registered.\<close>

definition ex_class :: PathTraverser_class where
  "ex_class =
     \<lparr>event_callbacks = [''raise'' \<mapsto> ''f_raise'', ''drop'' \<mapsto> ''f_drop''],
      stop_event_callbacks = [''s1'', ''s2''], event_markers = []\<rparr>"

text \<open>The traverser \<open>__init__\<close> builds from the path group.\<close>

definition ex_self0 :: PathTraverser where
  "ex_self0 =
     \<lparr>path_group = ex_group, current_path_index = 0, current_path = ex_path0,
      stop_event = ex_stop ''first'',
      current_path_initial_state = asWPILibState (ex_state 0 0),
      timer = Stopped 0, paths_traversed = False, total_time = 0, iterations = 0,
      self_event_markers = None\<rparr>"

text \<open>The traverser after the first, second and third call of \<open>sample\<close> below.\<close>

definition ex_self1 :: PathTraverser where
  "ex_self1 =
     ex_self0\<lparr>current_path_index := 1, current_path := ex_path1, stop_event := ex_stop ''second'',
       timer := Running (5 / 2) 0, total_time := 5 / 2, iterations := 1,
       self_event_markers := Some [ex_marker1, ex_marker2]\<rparr>"

definition ex_self2 :: PathTraverser where
  "ex_self2 = ex_self1\<lparr>iterations := 2, self_event_markers := Some [ex_marker2]\<rparr>"

definition ex_self3 :: PathTraverser where
  "ex_self3 = ex_self2\<lparr>iterations := 3, self_event_markers := Some [], paths_traversed := True\<rparr>"

text \<open>The class state after each of three calls of \<open>sample\<close> below.\<close>

definition ex_class1 :: PathTraverser_class where
  "ex_class1 = ex_class\<lparr>stop_event_callbacks := [''s2'']\<rparr>"

definition ex_class2 :: PathTraverser_class where
  "ex_class2 = ex_class1\<lparr>event_callbacks := (event_callbacks ex_class1)(''raise'' := None)\<rparr>"

definition ex_class3 :: PathTraverser_class where
  "ex_class3 = ex_class2\<lparr>event_callbacks := (event_callbacks ex_class2)(''drop'' := None), stop_event_callbacks := []\<rparr>"

section \<open>Properties\<close>

subsection \<open>The steps of a sample\<close>

lemma get_new_event_marker_cases:
  "get_new_event_marker now cls self =
     Inr (case get_event_markers cls self of
            [] \<Rightarrow> (None, cls, self)
          | m # ms \<Rightarrow>
              if em_time m \<le> timer_get now (timer self)
              then (Some m, pop_event_marker cls self) else (None, cls, self))"
  by (simp add: get_new_event_marker_def py_index0_def split: list.splits prod.splits)

lemma pop_event_marker_markers:
  "pop_event_marker cls self = (cls', self') \<Longrightarrow>
   get_event_markers cls' self' = tl (get_event_markers cls self)"
  by (auto simp: pop_event_marker_def get_event_markers_def split: option.splits)

lemma dispatch_names_Some:
  assumes "cbs n = Some f"
  shows "dispatch_names em (n # ns) cbs =
           (fst (dispatch_names em ns (cbs(n := None))),
            EventCall f em # snd (dispatch_names em ns (cbs(n := None))))"
  using assms by (simp split: prod.splits)

lemma dispatch_names_table:
  "fst (dispatch_names em ns cbs) = cbs |` (- set ns)"
proof (induction ns arbitrary: cbs)
  case Nil
  then show ?case by simp
next
  case (Cons n ns)
  show ?case
  proof (cases "cbs n")
    case None
    then have "cbs |` (- set (n # ns)) = cbs |` (- set ns)"
      by (auto simp: restrict_map_def fun_eq_iff)
    with None Cons show ?thesis by simp
  next
    case (Some f)
    have eq: "(cbs(n := None)) |` (- set ns) = cbs |` (- set (n # ns))"
      by (auto simp: restrict_map_def fun_eq_iff)
    have "fst (dispatch_names em (n # ns) cbs) = fst (dispatch_names em ns (cbs(n := None)))"
      by (simp only: dispatch_names_Some[of cbs n f em ns, OF Some] fst_conv)
    also have "\<dots> = (cbs(n := None)) |` (- set ns)" by (rule Cons)
    finally show ?thesis by (simp only: eq)
  qed
qed

lemma dispatch_names_count:
  "count_list (snd (dispatch_names em ns cbs)) (EventCall cb em)
     = card {n \<in> set ns. cbs n = Some cb}"
proof (induction ns arbitrary: cbs)
  case Nil
  then show ?case by simp
next
  case (Cons n ns)
  show ?case
  proof (cases "cbs n")
    case None
    then have "{x \<in> set (n # ns). cbs x = Some cb} = {x \<in> set ns. cbs x = Some cb}"
      by auto
    with None Cons show ?thesis by simp
  next
    case (Some f)
    let ?S = "{x \<in> set ns. (cbs(n := None)) x = Some cb}"
    let ?rest = "snd (dispatch_names em ns (cbs(n := None)))"
    have fin: "finite ?S" by simp
    have notin: "n \<notin> ?S" by simp
    have ih: "count_list ?rest (EventCall cb em) = card ?S"
      by (rule Cons)
    have unfold: "snd (dispatch_names em (n # ns) cbs) = EventCall f em # ?rest"
      by (simp only: dispatch_names_Some[of cbs n f em ns, OF Some] snd_conv)
    show ?thesis
    proof (cases "f = cb")
      case True
      with Some have "{x \<in> set (n # ns). cbs x = Some cb} = insert n ?S" by auto
      moreover have "card (insert n ?S) = Suc (card ?S)"
        using fin notin by (rule card_insert_disjoint)
      ultimately have "card {x \<in> set (n # ns). cbs x = Some cb} = Suc (card ?S)"
        by (simp only:)
      moreover have "count_list (EventCall f em # ?rest) (EventCall cb em) = Suc (count_list ?rest (EventCall cb em))"
        using True by simp
      ultimately show ?thesis by (simp only: unfold ih)
    next
      case False
      with Some have "{x \<in> set (n # ns). cbs x = Some cb} = ?S" by auto
      moreover have "count_list (EventCall f em # ?rest) (EventCall cb em) = count_list ?rest (EventCall cb em)"
        using False by simp
      ultimately show ?thesis by (simp only: unfold ih)
    qed
  qed
qed

lemma dispatch_names_order:
  "snd (dispatch_names em ns cbs)
     = map (\<lambda>n. EventCall (the (cbs n)) em) (filter (\<lambda>n. cbs n \<noteq> None) (first_occurrences ns))"
proof (induction ns arbitrary: cbs)
  case Nil
  then show ?case by simp
next
  case (Cons n ns)
  show ?case
  proof (cases "cbs n")
    case None
    have "filter (\<lambda>y. cbs y \<noteq> None) (filter (\<lambda>y. y \<noteq> n) (first_occurrences ns))
            = filter (\<lambda>y. cbs y \<noteq> None) (first_occurrences ns)"
      using None by (auto simp: filter_filter intro: filter_cong)
    with None Cons[of cbs] show ?thesis by simp
  next
    case (Some f)
    let ?cbs' = "cbs(n := None)"
    have flt: "filter (\<lambda>y. ?cbs' y \<noteq> None) (first_occurrences ns)
                 = filter (\<lambda>y. cbs y \<noteq> None) (filter (\<lambda>y. y \<noteq> n) (first_occurrences ns))"
      by (auto simp: filter_filter intro: filter_cong)
    have "snd (dispatch_names em (n # ns) cbs) = EventCall f em # snd (dispatch_names em ns ?cbs')"
      by (simp only: dispatch_names_Some[of cbs n f em ns, OF Some] snd_conv)
    also have "snd (dispatch_names em ns ?cbs')
                 = map (\<lambda>y. EventCall (the (?cbs' y)) em) (filter (\<lambda>y. ?cbs' y \<noteq> None) (first_occurrences ns))"
      by (rule Cons)
    also have "\<dots> = map (\<lambda>y. EventCall (the (cbs y)) em) (filter (\<lambda>y. ?cbs' y \<noteq> None) (first_occurrences ns))"
      by (rule map_cong) auto
    finally show ?thesis using Some flt by simp
  qed
qed

lemma distinct_first_occurrences: "distinct (first_occurrences xs)"
  by (induction xs) auto

lemma set_first_occurrences: "set (first_occurrences xs) = set xs"
  by (induction xs) auto

lemma dispatch_names_calls:
  "c \<in> set (snd (dispatch_names em ns cbs)) \<Longrightarrow> \<exists>n \<in> set ns. \<exists>cb. cbs n = Some cb \<and> c = EventCall cb em"
proof (induction ns arbitrary: cbs)
  case Nil
  then show ?case by simp
next
  case (Cons n ns)
  show ?case
  proof (cases "cbs n")
    case None
    with Cons show ?thesis by auto
  next
    case (Some f)
    with Cons.prems have "c = EventCall f em \<or> c \<in> set (snd (dispatch_names em ns (cbs(n := None))))"
      by (auto split: prod.splits)
    then show ?thesis
    proof
      assume "c = EventCall f em"
      with Some show ?thesis by auto
    next
      assume "c \<in> set (snd (dispatch_names em ns (cbs(n := None))))"
      from Cons.IH[OF this] obtain x cb where "x \<in> set ns" "(cbs(n := None)) x = Some cb" "c = EventCall cb em"
        by blast
      then show ?thesis by (cases "x = n") auto
    qed
  qed
qed

lemma stop_loop_calls:
  "c \<in> set (snd (stop_loop ev k cbs)) \<Longrightarrow> \<exists>cb. c = StopCall cb ev"
proof (induction ev k cbs rule: stop_loop.induct)
  case (1 ev k cbs)
  show ?case
  proof (cases "k < length cbs")
    case True
    obtain cbs' calls where r: "stop_loop ev (Suc k) (remove1 (cbs ! k) cbs) = (cbs', calls)"
      by (cases "stop_loop ev (Suc k) (remove1 (cbs ! k) cbs)")
    with True have "stop_loop ev k cbs = (cbs', StopCall (cbs ! k) ev # calls)"
      by (simp add: stop_loop.simps[of ev k cbs])
    with "1.prems" have "c = StopCall (cbs ! k) ev \<or> c \<in> set calls" by simp
    with "1.IH"[OF True] r show ?thesis by auto
  next
    case False
    then have "stop_loop ev k cbs = (cbs, [])" by (simp add: stop_loop.simps[of ev k cbs])
    with "1.prems" show ?thesis by simp
  qed
qed

lemma pop_event_marker_self:
  "snd (pop_event_marker cls self) = self\<lparr>self_event_markers := self_event_markers (snd (pop_event_marker cls self))\<rparr>"
  by (simp add: pop_event_marker_def split: option.splits)

lemma pop_event_marker_callbacks:
  "event_callbacks (fst (pop_event_marker cls self)) = event_callbacks cls
   \<and> stop_event_callbacks (fst (pop_event_marker cls self)) = stop_event_callbacks cls"
  by (simp add: pop_event_marker_def split: option.splits)

lemma get_new_event_marker_frame:
  assumes "get_new_event_marker now cls self = Inr (em, c1, s1)"
  shows "event_callbacks c1 = event_callbacks cls"
    and "stop_event_callbacks c1 = stop_event_callbacks cls"
    and "s1 = self\<lparr>self_event_markers := self_event_markers s1\<rparr>"
proof -
  from assms have r: "(em, c1, s1) = (case get_event_markers cls self of
            [] \<Rightarrow> (None, cls, self)
          | m # ms \<Rightarrow>
              if em_time m \<le> timer_get now (timer self)
              then (Some m, pop_event_marker cls self) else (None, cls, self))"
    by (simp add: get_new_event_marker_cases)
  have "(c1, s1) = (cls, self) \<or> (c1, s1) = pop_event_marker cls self"
    using r by (auto split: list.splits if_splits)
  then have c: "c1 = cls \<or> c1 = fst (pop_event_marker cls self)"
    and s: "s1 = self \<or> s1 = snd (pop_event_marker cls self)"
    by (auto simp: prod_eq_iff)
  from c show "event_callbacks c1 = event_callbacks cls"
    using pop_event_marker_callbacks[of cls self] by auto
  from c show "stop_event_callbacks c1 = stop_event_callbacks cls"
    using pop_event_marker_callbacks[of cls self] by auto
  from s show "s1 = self\<lparr>self_event_markers := self_event_markers s1\<rparr>"
    using pop_event_marker_self[of cls self] by auto
qed

lemma sample_within:
  assumes "\<not> paths_traversed self"
    and "get_new_event_marker (at_marker t) cls self = Inr (em, c1, s1)"
    and "\<not> timer_get (at_get t) (timer self) > getTotalTime (current_path self)"
  shows "sample t cls self =
           Inr (Some (traj_sample (current_path self) (timer_get (at_get t) (timer self))),
                snd (marker_calls em (event_callbacks cls)),
                c1\<lparr>event_callbacks := fst (marker_calls em (event_callbacks cls)),
                    stop_event_callbacks := stop_event_callbacks cls\<rparr>,
                s1\<lparr>iterations := iterations self + 1\<rparr>)"
proof -
  note fr = get_new_event_marker_frame[OF assms(2)]
  have cp: "current_path s1 = current_path self" and it: "iterations s1 = iterations self"
    by (subst fr(3), simp)+
  show ?thesis
    using assms cp it
    by (simp add: sample_def Let_def marker_calls_def fr(1) fr(2) split: prod.splits option.splits)
qed

lemma sample_crossing:
  assumes "\<not> paths_traversed self"
    and "get_new_event_marker (at_marker t) cls self = Inr (em, c1, s1)"
    and "timer_get (at_get t) (timer self) > getTotalTime (current_path self)"
  shows "sample t cls self =
           Inr (Some (traj_sample (current_path (move_to_next_path t s1)) (timer_get (at_get t) (timer self))),
                snd (marker_calls em (event_callbacks cls))
                  @ snd (stop_loop (stop_event self) 0 (stop_event_callbacks cls)),
                c1\<lparr>event_callbacks := fst (marker_calls em (event_callbacks cls)),
                    stop_event_callbacks := fst (stop_loop (stop_event self) 0 (stop_event_callbacks cls))\<rparr>,
                (move_to_next_path t s1)\<lparr>iterations := iterations (move_to_next_path t s1) + 1\<rparr>)"
proof -
  note fr = get_new_event_marker_frame[OF assms(2)]
  have se: "stop_event s1 = stop_event self"
    by (subst fr(3), simp)
  show ?thesis
    using assms se
    by (simp add: sample_def Let_def marker_calls_def fr(1) fr(2) split: prod.splits option.splits)
qed

subsection \<open>The example, evaluated\<close>

lemmas ex_defs =
  ex_class_def ex_class1_def ex_class2_def ex_class3_def ex_self0_def ex_self1_def ex_self2_def ex_self3_def ex_group_def ex_path0_def ex_path1_def
  ex_marker0_def ex_marker1_def ex_marker2_def ex_stop_def at_instant_def class_body_def

lemmas code_defs =
  sample_def get_new_event_marker_def get_event_markers_def pop_event_marker_def py_index0_def
  move_to_next_path_def start_timer_def on_def on_stop_def Let_def

lemma ex_init: "init ex_group = Inr ex_self0"
  by (simp add: init_def reset_def unset_traverser_def get_initial_state_def new_Timer_def Let_def ex_defs)

lemma ex_stop_loop: "stop_loop ev 0 [''s1'', ''s2''] = ([''s2''], [StopCall ''s1'' ev])"
  by (simp add: stop_loop.simps[of ev 0] stop_loop.simps[of ev "Suc 0"])

lemma ex_stop_loop1: "stop_loop ev 0 [''s2''] = ([], [StopCall ''s2'' ev])"
  by (simp add: stop_loop.simps[of ev 0] stop_loop.simps[of ev "Suc 0"])

lemma ex_stop_loop0: "stop_loop ev 0 [] = ([], [])"
  by (simp add: stop_loop.simps[of ev 0])

lemma ex_sample1:
  "sample (at_instant (5 / 2)) ex_class (start_timer 0 ex_self0) =
     Inr (Some (ex_state 2 (5 / 2)), [StopCall ''s1'' (ex_stop ''first'')],
          ex_class\<lparr>stop_event_callbacks := [''s2'']\<rparr>, ex_self1)"
  by (simp add: code_defs ex_defs ex_stop_loop)

lemma ex_sample2:
  "sample (at_instant 5) ex_class1 ex_self1 =
     Inr (Some (ex_state 2 (5 / 2)), [EventCall ''f_raise'' ex_marker1], ex_class2, ex_self2)"
  by (simp add: code_defs ex_defs)

lemma ex_sample3:
  "sample (at_instant 9) ex_class2 ex_self2 =
     Inr (Some (ex_state 2 (13 / 2)),
          [EventCall ''f_drop'' ex_marker2, StopCall ''s2'' (ex_stop ''second'')], ex_class3, ex_self3)"
  by (simp add: code_defs ex_defs ex_stop_loop1)

lemma ex_sample_plain1:
  "sample (at_instant (5 / 2)) class_body (start_timer 0 ex_self0) =
     Inr (Some (ex_state 2 (5 / 2)), [], class_body, ex_self1)"
  by (simp add: code_defs ex_defs ex_stop_loop0)

lemma ex_sample_plain2:
  "sample (at_instant 5) class_body ex_self1 =
     Inr (Some (ex_state 2 (5 / 2)), [], class_body, ex_self2)"
  by (simp add: code_defs ex_defs ex_stop_loop0)

lemma ex_sample_plain3:
  "sample (at_instant 9) class_body ex_self2 =
     Inr (Some (ex_state 2 (13 / 2)), [], class_body, ex_self3)"
  by (simp add: code_defs ex_defs ex_stop_loop0)

subsection \<open>Construction\<close>

text \<open>
  C8. Constructing a traverser over an empty path group raises: \<open>__init__\<close> returns
  no instance, and whatever calls were to follow, none is made and nothing is
  observed.
\<close>

theorem init_empty_group_raises:
  "init [] = Inl IndexError \<and> construct_and_run [] ops cls = ([], Inl IndexError)"
  by (simp add: init_def construct_and_run_def)

subsection \<open>Reset\<close>

lemma reset_twice: "reset self = Inr s \<Longrightarrow> reset s = Inr s"
  by (auto simp: reset_def Let_def get_initial_state_def split: list.splits)

text \<open>
  C9. \<open>reset\<close> is idempotent: two calls of \<open>reset\<close> in succession followed by any
  sequence of calls give the same observations (the values \<open>sample\<close> returns and
  the callbacks invoked) and the same final state, or the same exception, as one
  call of \<open>reset\<close> followed by that sequence.
\<close>

theorem reset_idempotent:
  "run (Reset # Reset # ops) (cls, self) = run (Reset # ops) (cls, self)"
proof (cases "reset self")
  case (Inl e)
  then show ?thesis by simp
next
  case (Inr s)
  then have "reset s = Inr s" by (rule reset_twice)
  with Inr show ?thesis by simp
qed

subsection \<open>After the last path\<close>

lemma sample_exhausted:
  "paths_traversed self \<Longrightarrow> sample t cls self = Inr (None, [], cls, self)"
  by (simp add: sample_def)

lemma step_exhausted:
  assumes "paths_traversed self" and "x \<noteq> Reset"
  shows "\<exists>cls' self'.
           step x (cls, self) = Inr (if is_Sample x then [Returned None] else [], cls', self')
           \<and> paths_traversed self'"
  using assms by (cases x) (simp_all add: sample_exhausted start_timer_def)

text \<open>
  C7. Once \<open>paths_traversed\<close> is set, every later call of \<open>sample\<close> returns \<open>None\<close>,
  however many calls follow and whatever registrations and timer starts come in
  between, as long as the traverser is not reset: the run raises nothing, invokes
  no callback, observes exactly one \<open>None\<close> per \<open>sample\<close>, and the flag stays set.
\<close>

theorem exhausted_returns_sentinel:
  assumes "paths_traversed self" and "Reset \<notin> set ops"
  shows "\<exists>cls' self'.
           run ops (cls, self)
             = (map (\<lambda>x. Returned None) (filter is_Sample ops), Inr (cls', self'))
           \<and> paths_traversed self'"
  using assms
proof (induction ops arbitrary: cls self)
  case Nil
  then show ?case by simp
next
  case (Cons x xs)
  then have "x \<noteq> Reset" by auto
  from step_exhausted[OF Cons.prems(1) this]
  obtain c1 s1 where
    st: "step x (cls, self) = Inr (if is_Sample x then [Returned None] else [], c1, s1)"
    and pt: "paths_traversed s1" by blast
  from Cons.prems have "Reset \<notin> set xs" by simp
  from Cons.IH[OF pt this, of c1] obtain c2 s2 where
    "run xs (c1, s1) = (map (\<lambda>x. Returned None) (filter is_Sample xs), Inr (c2, s2))"
    and "paths_traversed s2" by blast
  with st show ?case by simp
qed

theorem exhausted_returns_sentinel_witness:
  "paths_traversed ex_self3
   \<and> Reset \<notin> set [Sample (at_instant 10), On ''raise'' ''f_raise'', StartTimer 11, Sample (at_instant 12)]
   \<and> (\<exists>cls' self'.
         run [Sample (at_instant 10), On ''raise'' ''f_raise'', StartTimer 11, Sample (at_instant 12)]
             (ex_class3, ex_self3)
           = ([Returned None, Returned None], Inr (cls', self'))
         \<and> paths_traversed self')"
proof -
  have h1: "paths_traversed ex_self3" by (simp add: ex_defs)
  have h2: "Reset \<notin> set [Sample (at_instant 10), On ''raise'' ''f_raise'', StartTimer 11, Sample (at_instant 12)]"
    by simp
  from exhausted_returns_sentinel[OF h1 h2, of ex_class3] h1 h2 show ?thesis by simp
qed

subsection \<open>Event markers in a sample\<close>

lemma get_new_event_marker_due:
  assumes "get_event_markers cls self = m # ms"
    and "em_time m \<le> timer_get now (timer self)"
  shows "\<exists>c1 s1. get_new_event_marker now cls self = Inr (Some m, c1, s1)
           \<and> get_event_markers c1 s1 = ms"
proof -
  obtain c1 s1 where p: "pop_event_marker cls self = (c1, s1)"
    by (cases "pop_event_marker cls self")
  from pop_event_marker_markers[OF p] assms(1) have "get_event_markers c1 s1 = ms" by simp
  moreover from assms p have "get_new_event_marker now cls self = Inr (Some m, c1, s1)"
    by (simp add: get_new_event_marker_cases)
  ultimately show ?thesis by blast
qed

lemma get_new_event_marker_total:
  "\<exists>em c1 s1. get_new_event_marker now cls self = Inr (em, c1, s1)"
  by (simp add: get_new_event_marker_cases split: list.splits prod.splits)

lemma get_event_markers_iterations:
  "get_event_markers c (s\<lparr>iterations := n\<rparr>) = get_event_markers c s"
  by (simp add: get_event_markers_def)

lemma get_event_markers_class_update:
  "get_event_markers (c\<lparr>event_callbacks := a, stop_event_callbacks := b\<rparr>) s = get_event_markers c s"
  by (simp add: get_event_markers_def split: option.splits)

lemma move_to_next_path_last:
  "current_path_index s + 1 \<ge> length (path_group s) \<Longrightarrow>
   move_to_next_path t s = s\<lparr>paths_traversed := True\<rparr>"
  by (simp add: move_to_next_path_def)

lemma move_to_next_path_next:
  "\<not> current_path_index s + 1 \<ge> length (path_group s) \<Longrightarrow>
   move_to_next_path t s =
     s\<lparr>current_path_index := current_path_index s + 1,
       current_path := path_group s ! (current_path_index s + 1),
       total_time := total_time s + timer_get (at_total t) (timer s),
       timer := timer_start (at_start t) (timer_reset (at_reset t) (timer s)),
       self_event_markers := Some (getMarkers (path_group s ! (current_path_index s + 1))),
       stop_event := getEndStopEvent (path_group s ! (current_path_index s + 1))\<rparr>"
  by (simp add: move_to_next_path_def Let_def)

lemma move_to_next_path_markers:
  "get_event_markers c (move_to_next_path t s) =
     (if current_path_index (move_to_next_path t s) = current_path_index s
      then get_event_markers c s else getMarkers (current_path (move_to_next_path t s)))"
  by (cases "current_path_index s + 1 \<ge> length (path_group s)")
     (simp_all add: move_to_next_path_last move_to_next_path_next get_event_markers_def)

lemma count_list_stop_loop:
  "count_list (snd (stop_loop ev k cbs)) (EventCall cb m) = 0"
proof -
  have "EventCall cb m \<notin> set (snd (stop_loop ev k cbs))"
    using stop_loop_calls[of "EventCall cb m" ev k cbs] by auto
  then show ?thesis by (simp add: count_list_0_iff)
qed

text \<open>
  C1 (as amended). Take a call of \<open>sample\<close> on a traverser that is not exhausted
  and whose pending marker list has a head with trigger time at most the clock
  reading. The call returns, and the callbacks it invokes are, first
  and in the order of the marker's names, the callback bound to each bound name of
  that marker, called with the marker once per name (a name listed twice counts
  once, where it first occurs, so a callback is invoked as many times as names of
  the marker are bound to it), and after them stop callbacks only: no other marker
  is passed to an event callback in that call, due or not. The bindings of all the
  marker's names are gone from the table, and the marker is gone from the pending
  list: the list is its tail, unless the same call moved to the next path and
  replaced the list by that path's markers.
\<close>

theorem sample_dispatches_due_head:
  assumes "\<not> paths_traversed self"
    and "get_event_markers cls self = m # ms"
    and "em_time m \<le> timer_get (at_marker t) (timer self)"
  shows "\<exists>r calls stop_calls cls' self'.
           sample t cls self = Inr (r, calls, cls', self')
           \<and> calls = map (\<lambda>n. EventCall (the (event_callbacks cls n)) m)
                         (filter (\<lambda>n. event_callbacks cls n \<noteq> None)
                                 (first_occurrences (em_names m)))
                     @ stop_calls
           \<and> (\<forall>cb m'. EventCall cb m' \<notin> set stop_calls)
           \<and> (\<forall>cb. count_list calls (EventCall cb m)
                      = card {n \<in> set (em_names m). event_callbacks cls n = Some cb})
           \<and> (\<forall>cb m'. EventCall cb m' \<in> set calls \<longrightarrow> m' = m)
           \<and> event_callbacks cls' = event_callbacks cls |` (- set (em_names m))
           \<and> get_event_markers cls' self'
               = (if current_path_index self' = current_path_index self then ms
                  else getMarkers (current_path self'))"
proof -
  from get_new_event_marker_due[OF assms(2,3)] obtain c1 s1 where
    g: "get_new_event_marker (at_marker t) cls self = Inr (Some m, c1, s1)"
    and ms: "get_event_markers c1 s1 = ms" by blast
  note fr = get_new_event_marker_frame[OF g]
  have idx: "current_path_index s1 = current_path_index self"
    by (subst fr(3)) simp
  let ?D = "marker_calls (Some m) (event_callbacks cls)"
  let ?E = "map (\<lambda>n. EventCall (the (event_callbacks cls n)) m)
                (filter (\<lambda>n. event_callbacks cls n \<noteq> None) (first_occurrences (em_names m)))"
  have D: "?D = dispatch_names m (em_names m) (event_callbacks cls)"
    by (simp add: marker_calls_def)
  have tab: "fst ?D = event_callbacks cls |` (- set (em_names m))"
    by (simp only: D dispatch_names_table)
  have ord: "snd ?D = ?E"
    by (simp only: D dispatch_names_order)
  have cnt: "\<And>cb. count_list (snd ?D) (EventCall cb m)
                = card {n \<in> set (em_names m). event_callbacks cls n = Some cb}"
    by (simp only: D dispatch_names_count)
  have only: "\<And>cb m'. EventCall cb m' \<in> set (snd ?D) \<Longrightarrow> m' = m"
    using dispatch_names_calls[of _ m "em_names m" "event_callbacks cls"] by (auto simp: D)
  show ?thesis
  proof (cases "timer_get (at_get t) (timer self) > getTotalTime (current_path self)")
    case False
    let ?self' = "s1\<lparr>iterations := iterations self + 1\<rparr>"
    let ?cls' = "c1\<lparr>event_callbacks := fst ?D, stop_event_callbacks := stop_event_callbacks cls\<rparr>"
    from sample_within[OF assms(1) g False]
    have s: "sample t cls self
               = Inr (Some (traj_sample (current_path self) (timer_get (at_get t) (timer self))),
                      snd ?D, ?cls', ?self')" .
    have 1: "snd ?D = ?E @ []" using ord by simp
    have 2: "\<forall>cb m'. EventCall cb m' \<notin> set ([]::call list)" by simp
    have 3: "\<forall>cb. count_list (snd ?D) (EventCall cb m)
                = card {n \<in> set (em_names m). event_callbacks cls n = Some cb}"
      using cnt by blast
    have 4: "\<forall>cb m'. EventCall cb m' \<in> set (snd ?D) \<longrightarrow> m' = m" using only by blast
    have 5: "event_callbacks ?cls' = event_callbacks cls |` (- set (em_names m))"
      using tab by simp
    have 6: "get_event_markers ?cls' ?self'
               = (if current_path_index ?self' = current_path_index self then ms
                  else getMarkers (current_path ?self'))"
      using ms idx by (simp add: get_event_markers_iterations get_event_markers_class_update)
    from s 1 2 3 4 5 6 show ?thesis by blast
  next
    case True
    let ?S = "stop_loop (stop_event self) 0 (stop_event_callbacks cls)"
    let ?self' = "(move_to_next_path t s1)\<lparr>iterations := iterations (move_to_next_path t s1) + 1\<rparr>"
    let ?cls' = "c1\<lparr>event_callbacks := fst ?D, stop_event_callbacks := fst ?S\<rparr>"
    from sample_crossing[OF assms(1) g True]
    have s: "sample t cls self
               = Inr (Some (traj_sample (current_path (move_to_next_path t s1))
                              (timer_get (at_get t) (timer self))),
                      snd ?D @ snd ?S, ?cls', ?self')" .
    have 1: "snd ?D @ snd ?S = ?E @ snd ?S" using ord by simp
    have 2: "\<forall>cb m'. EventCall cb m' \<notin> set (snd ?S)"
      using stop_loop_calls[of _ "stop_event self" 0 "stop_event_callbacks cls"] by auto
    have 3: "\<forall>cb. count_list (snd ?D @ snd ?S) (EventCall cb m)
                = card {n \<in> set (em_names m). event_callbacks cls n = Some cb}"
      by (simp add: cnt count_list_stop_loop)
    have 4: "\<forall>cb m'. EventCall cb m' \<in> set (snd ?D @ snd ?S) \<longrightarrow> m' = m"
      using only 2 by auto
    have 5: "event_callbacks ?cls' = event_callbacks cls |` (- set (em_names m))"
      using tab by simp
    have mk: "get_event_markers c1 (move_to_next_path t s1) =
       (if current_path_index (move_to_next_path t s1) = current_path_index self then ms
        else getMarkers (current_path (move_to_next_path t s1)))"
      by (simp only: move_to_next_path_markers idx ms)
    have 6: "get_event_markers ?cls' ?self'
               = (if current_path_index ?self' = current_path_index self then ms
                  else getMarkers (current_path ?self'))"
      using mk by (simp add: get_event_markers_iterations get_event_markers_class_update)
    from s 1 2 3 4 5 6 show ?thesis by blast
  qed
qed

theorem sample_dispatches_due_head_witness:
  "\<not> paths_traversed ex_self1
   \<and> get_event_markers ex_class1 ex_self1 = ex_marker1 # [ex_marker2]
   \<and> em_time ex_marker1 \<le> timer_get (at_marker (at_instant 5)) (timer ex_self1)
   \<and> (\<exists>r calls stop_calls cls' self'.
          sample (at_instant 5) ex_class1 ex_self1 = Inr (r, calls, cls', self')
          \<and> calls = map (\<lambda>n. EventCall (the (event_callbacks ex_class1 n)) ex_marker1)
                        (filter (\<lambda>n. event_callbacks ex_class1 n \<noteq> None)
                                (first_occurrences (em_names ex_marker1)))
                    @ stop_calls
          \<and> count_list calls (EventCall ''f_raise'' ex_marker1)
              = card {n \<in> set (em_names ex_marker1). event_callbacks ex_class1 n = Some ''f_raise''}
          \<and> event_callbacks cls' = event_callbacks ex_class1 |` (- set (em_names ex_marker1))
          \<and> get_event_markers cls' self'
              = (if current_path_index self' = current_path_index ex_self1 then [ex_marker2]
                 else getMarkers (current_path self')))
   \<and> map (\<lambda>n. EventCall (the (event_callbacks ex_class1 n)) ex_marker1)
          (filter (\<lambda>n. event_callbacks ex_class1 n \<noteq> None)
                  (first_occurrences (em_names ex_marker1)))
       = [EventCall ''f_raise'' ex_marker1]"
proof -
  have h1: "\<not> paths_traversed ex_self1" by (simp add: ex_defs)
  have h2: "get_event_markers ex_class1 ex_self1 = ex_marker1 # [ex_marker2]"
    by (simp add: get_event_markers_def ex_defs)
  have h3: "em_time ex_marker1 \<le> timer_get (at_marker (at_instant 5)) (timer ex_self1)"
    by (simp add: ex_defs)
  have ev: "map (\<lambda>n. EventCall (the (event_callbacks ex_class1 n)) ex_marker1)
          (filter (\<lambda>n. event_callbacks ex_class1 n \<noteq> None)
                  (first_occurrences (em_names ex_marker1)))
       = [EventCall ''f_raise'' ex_marker1]"
    by (simp add: ex_defs)
  from sample_dispatches_due_head[OF h1 h2 h3]
  have "\<exists>r calls stop_calls cls' self'.
          sample (at_instant 5) ex_class1 ex_self1 = Inr (r, calls, cls', self')
          \<and> calls = map (\<lambda>n. EventCall (the (event_callbacks ex_class1 n)) ex_marker1)
                        (filter (\<lambda>n. event_callbacks ex_class1 n \<noteq> None)
                                (first_occurrences (em_names ex_marker1)))
                    @ stop_calls
          \<and> count_list calls (EventCall ''f_raise'' ex_marker1)
              = card {n \<in> set (em_names ex_marker1). event_callbacks ex_class1 n = Some ''f_raise''}
          \<and> event_callbacks cls' = event_callbacks ex_class1 |` (- set (em_names ex_marker1))
          \<and> get_event_markers cls' self'
              = (if current_path_index self' = current_path_index ex_self1 then [ex_marker2]
                 else getMarkers (current_path self'))"
    by blast
  with h1 h2 h3 ev show ?thesis by (intro conjI)
qed

text \<open>
  C1 as stated fails. The traverser is on the second path, 2.5 s into it, with both
  markers (1 s and 1.5 s) pending and due and a callback bound to each. One call of
  \<open>sample\<close> invokes the first marker's callback only: the second marker is still
  pending after the call and its callback still bound.
\<close>

theorem due_marker_left_pending:
  "\<not> paths_traversed ex_self1
   \<and> get_event_markers ex_class1 ex_self1 = [ex_marker1, ex_marker2]
   \<and> em_time ex_marker2 \<le> timer_get (at_get (at_instant 5)) (timer ex_self1)
   \<and> event_callbacks ex_class1 ''drop'' = Some ''f_drop''
   \<and> sample (at_instant 5) ex_class1 ex_self1
       = Inr (Some (ex_state 2 (5 / 2)), [EventCall ''f_raise'' ex_marker1], ex_class2, ex_self2)
   \<and> get_event_markers ex_class2 ex_self2 = [ex_marker2]
   \<and> event_callbacks ex_class2 ''drop'' = Some ''f_drop''"
  by (simp add: ex_sample2) (simp add: get_event_markers_def ex_defs)

lemma sample_total:
  "\<exists>r calls cls' self'. sample t cls self = Inr (r, calls, cls', self')"
proof (cases "paths_traversed self")
  case True
  then show ?thesis by (simp add: sample_exhausted)
next
  case False
  obtain em c1 s1 where g: "get_new_event_marker (at_marker t) cls self = Inr (em, c1, s1)"
    using get_new_event_marker_total by blast
  show ?thesis
  proof (cases "timer_get (at_get t) (timer self) > getTotalTime (current_path self)")
    case True
    from sample_crossing[OF False g True] show ?thesis by blast
  next
    case F: False
    from sample_within[OF False g F] show ?thesis by blast
  qed
qed

lemma marker_calls_event:
  assumes "EventCall cb m \<in> set (snd (marker_calls em cbs))"
  shows "em = Some m"
proof (cases em)
  case None
  with assms show ?thesis by (simp add: marker_calls_def)
next
  case (Some m')
  with assms have "EventCall cb m \<in> set (snd (dispatch_names m' (em_names m') cbs))"
    by (simp add: marker_calls_def)
  from dispatch_names_calls[OF this] Some show ?thesis by auto
qed

lemma sample_event_call:
  assumes "sample t cls self = Inr (r, calls, cls', self')"
    and "EventCall cb m \<in> set calls"
  shows "\<exists>c1 s1. get_new_event_marker (at_marker t) cls self = Inr (Some m, c1, s1)"
    and "event_callbacks cls' = event_callbacks cls |` (- set (em_names m))"
proof -
  have np: "\<not> paths_traversed self"
    using assms by (auto simp: sample_exhausted)
  obtain em c1 s1 where g: "get_new_event_marker (at_marker t) cls self = Inr (em, c1, s1)"
    using get_new_event_marker_total by blast
  let ?D = "marker_calls em (event_callbacks cls)"
  have "calls = snd ?D \<or> calls = snd ?D @ snd (stop_loop (stop_event self) 0 (stop_event_callbacks cls))"
    and cb: "event_callbacks cls' = fst ?D"
    using sample_within[OF np g] sample_crossing[OF np g] assms(1)
    by (cases "timer_get (at_get t) (timer self) > getTotalTime (current_path self)"; simp)+
  with assms(2) have "EventCall cb m \<in> set (snd ?D)"
    using stop_loop_calls[of "EventCall cb m" "stop_event self" 0 "stop_event_callbacks cls"] by auto
  then have em: "em = Some m" by (rule marker_calls_event)
  with g show "\<exists>c1 s1. get_new_event_marker (at_marker t) cls self = Inr (Some m, c1, s1)" by blast
  from cb em show "event_callbacks cls' = event_callbacks cls |` (- set (em_names m))"
    by (simp add: marker_calls_def dispatch_names_table)
qed

lemma get_new_event_marker_Some:
  assumes "get_new_event_marker now cls self = Inr (Some m, c1, s1)"
  shows "em_time m \<le> timer_get now (timer self)
         \<and> get_event_markers cls self = m # get_event_markers c1 s1"
proof (cases "get_event_markers cls self")
  case Nil
  with assms show ?thesis by (simp add: get_new_event_marker_cases)
next
  case (Cons x xs)
  with assms have due: "em_time x \<le> timer_get now (timer self)" and "x = m"
    and p: "pop_event_marker cls self = (c1, s1)"
    by (auto simp: get_new_event_marker_cases split: if_splits)
  from pop_event_marker_markers[OF p] Cons have "get_event_markers c1 s1 = xs" by simp
  with due \<open>x = m\<close> Cons show ?thesis by simp
qed

lemma get_new_event_marker_None:
  assumes "get_new_event_marker now cls self = Inr (None, c1, s1)"
  shows "c1 = cls \<and> s1 = self"
  using assms by (auto simp: get_new_event_marker_cases split: list.splits if_splits)

text \<open>
  C10. The marker step \<open>get_new_event_marker\<close> never raises: on an empty pending
  list it returns \<open>None\<close> and changes nothing; it returns a marker only when that
  marker is the head of the pending list and its trigger time is at most the
  clock reading, and then the pending list loses exactly its head. Every call of
  \<open>sample\<close> returns, and every marker it passes to an event callback is that due
  head: at most one marker is dispatched per call.
\<close>

theorem at_most_one_marker_per_sample:
  "(\<exists>em c1 s1.
      get_new_event_marker now cls self = Inr (em, c1, s1)
      \<and> (get_event_markers cls self = [] \<longrightarrow> em = None)
      \<and> (em = None \<longrightarrow> c1 = cls \<and> s1 = self)
      \<and> (\<forall>m. em = Some m \<longrightarrow>
             em_time m \<le> timer_get now (timer self)
             \<and> get_event_markers cls self = m # get_event_markers c1 s1))
   \<and> (\<exists>r calls cls' self'.
        sample t cls self = Inr (r, calls, cls', self')
        \<and> (\<forall>cb m. EventCall cb m \<in> set calls \<longrightarrow>
               em_time m \<le> timer_get (at_marker t) (timer self)
               \<and> (\<exists>ms. get_event_markers cls self = m # ms)))"
proof
  obtain em c1 s1 where g: "get_new_event_marker now cls self = Inr (em, c1, s1)"
    using get_new_event_marker_total by blast
  have "get_event_markers cls self = [] \<longrightarrow> em = None"
    using g by (auto simp: get_new_event_marker_cases)
  moreover have "em = None \<longrightarrow> c1 = cls \<and> s1 = self"
    using g get_new_event_marker_None by blast
  moreover have "\<forall>m. em = Some m \<longrightarrow>
             em_time m \<le> timer_get now (timer self)
             \<and> get_event_markers cls self = m # get_event_markers c1 s1"
    using g get_new_event_marker_Some by blast
  ultimately show "\<exists>em c1 s1.
      get_new_event_marker now cls self = Inr (em, c1, s1)
      \<and> (get_event_markers cls self = [] \<longrightarrow> em = None)
      \<and> (em = None \<longrightarrow> c1 = cls \<and> s1 = self)
      \<and> (\<forall>m. em = Some m \<longrightarrow>
             em_time m \<le> timer_get now (timer self)
             \<and> get_event_markers cls self = m # get_event_markers c1 s1)"
    using g by blast
next
  obtain r calls cls' self' where s: "sample t cls self = Inr (r, calls, cls', self')"
    using sample_total by blast
  have "\<forall>cb m. EventCall cb m \<in> set calls \<longrightarrow>
               em_time m \<le> timer_get (at_marker t) (timer self)
               \<and> (\<exists>ms. get_event_markers cls self = m # ms)"
  proof (intro allI impI)
    fix cb m
    assume "EventCall cb m \<in> set calls"
    from sample_event_call(1)[OF s this] obtain c1 s1 where
      "get_new_event_marker (at_marker t) cls self = Inr (Some m, c1, s1)" by blast
    from get_new_event_marker_Some[OF this]
    show "em_time m \<le> timer_get (at_marker t) (timer self)
               \<and> (\<exists>ms. get_event_markers cls self = m # ms)" by blast
  qed
  with s show "\<exists>r calls cls' self'.
        sample t cls self = Inr (r, calls, cls', self')
        \<and> (\<forall>cb m. EventCall cb m \<in> set calls \<longrightarrow>
               em_time m \<le> timer_get (at_marker t) (timer self)
               \<and> (\<exists>ms. get_event_markers cls self = m # ms))" by blast
qed

theorem at_most_one_marker_per_sample_witness:
  "(\<exists>em c1 s1.
      get_new_event_marker 5 class_body ex_self0 = Inr (em, c1, s1)
      \<and> get_event_markers class_body ex_self0 = [] \<and> em = None \<and> c1 = class_body \<and> s1 = ex_self0)
   \<and> (\<exists>r cls' self'.
        sample (at_instant 5) ex_class1 ex_self1
          = Inr (r, [EventCall ''f_raise'' ex_marker1], cls', self')
        \<and> em_time ex_marker1 \<le> timer_get (at_marker (at_instant 5)) (timer ex_self1)
        \<and> (\<exists>ms. get_event_markers ex_class1 ex_self1 = ex_marker1 # ms))"
proof
  have e: "get_event_markers class_body ex_self0 = []"
    by (simp add: get_event_markers_def ex_defs)
  from at_most_one_marker_per_sample[of 5 class_body ex_self0] e
  show "\<exists>em c1 s1.
      get_new_event_marker 5 class_body ex_self0 = Inr (em, c1, s1)
      \<and> get_event_markers class_body ex_self0 = [] \<and> em = None \<and> c1 = class_body \<and> s1 = ex_self0"
    by blast
next
  have "\<exists>r calls cls' self'.
        sample (at_instant 5) ex_class1 ex_self1 = Inr (r, calls, cls', self')
        \<and> (\<forall>cb m. EventCall cb m \<in> set calls \<longrightarrow>
               em_time m \<le> timer_get (at_marker (at_instant 5)) (timer ex_self1)
               \<and> (\<exists>ms. get_event_markers ex_class1 ex_self1 = m # ms))"
    using at_most_one_marker_per_sample[of 5 ex_class1 ex_self1 "at_instant 5"]
    by (rule conjunct2)
  then obtain r calls cls' self' where
    s: "sample (at_instant 5) ex_class1 ex_self1 = Inr (r, calls, cls', self')"
    and a: "\<forall>cb m. EventCall cb m \<in> set calls \<longrightarrow>
               em_time m \<le> timer_get (at_marker (at_instant 5)) (timer ex_self1)
               \<and> (\<exists>ms. get_event_markers ex_class1 ex_self1 = m # ms)"
    by (elim exE conjE)
  from s have c: "calls = [EventCall ''f_raise'' ex_marker1]"
    by (simp add: ex_sample2)
  then have "EventCall ''f_raise'' ex_marker1 \<in> set calls" by simp
  with a have "em_time ex_marker1 \<le> timer_get (at_marker (at_instant 5)) (timer ex_self1)
               \<and> (\<exists>ms. get_event_markers ex_class1 ex_self1 = ex_marker1 # ms)"
    by (elim allE impE)
  with s c show "\<exists>r cls' self'.
        sample (at_instant 5) ex_class1 ex_self1
          = Inr (r, [EventCall ''f_raise'' ex_marker1], cls', self')
        \<and> em_time ex_marker1 \<le> timer_get (at_marker (at_instant 5)) (timer ex_self1)
        \<and> (\<exists>ms. get_event_markers ex_class1 ex_self1 = ex_marker1 # ms)"
    by (intro exI[of _ r] exI[of _ cls'] exI[of _ self'] conjI) simp_all
qed

subsection \<open>Crossing the end of a path\<close>

lemma timer_get_mono: "a \<le> b \<Longrightarrow> timer_get a tm \<le> timer_get b tm"
  by (cases tm) simp_all

text \<open>
  C3 (as amended). When the clock reading exceeds the current path's total time
  and there is no further path, that call of \<open>sample\<close> sets \<open>paths_traversed\<close> and
  still returns a trajectory state: the current (last) path sampled at the clock
  reading. \<open>None\<close> is what every call after it returns.
\<close>

theorem sample_past_last_path:
  assumes "\<not> paths_traversed self"
    and "timer_get (at_get t) (timer self) > getTotalTime (current_path self)"
    and "current_path_index self + 1 \<ge> length (path_group self)"
  shows "\<exists>calls cls' self'.
           sample t cls self
             = Inr (Some (traj_sample (current_path self) (timer_get (at_get t) (timer self))),
                    calls, cls', self')
           \<and> paths_traversed self'
           \<and> (\<forall>t' c. sample t' c self' = Inr (None, [], c, self'))"
proof -
  obtain em c1 s1 where g: "get_new_event_marker (at_marker t) cls self = Inr (em, c1, s1)"
    using get_new_event_marker_total by blast
  note fr = get_new_event_marker_frame(3)[OF g]
  have "current_path_index s1 = current_path_index self" "path_group s1 = path_group self"
    "current_path s1 = current_path self"
    by (subst fr, simp)+
  with assms(3) have mv: "move_to_next_path t s1 = s1\<lparr>paths_traversed := True\<rparr>"
    and cp: "current_path (s1\<lparr>paths_traversed := True\<rparr>) = current_path self"
    by (simp_all add: move_to_next_path_last)
  from sample_crossing[OF assms(1) g assms(2)] mv cp
  show ?thesis by (simp add: sample_exhausted)
qed

theorem sample_past_last_path_witness:
  "\<not> paths_traversed ex_self2
   \<and> timer_get (at_get (at_instant 9)) (timer ex_self2) > getTotalTime (current_path ex_self2)
   \<and> current_path_index ex_self2 + 1 \<ge> length (path_group ex_self2)
   \<and> (\<exists>calls cls' self'.
           sample (at_instant 9) ex_class2 ex_self2
             = Inr (Some (traj_sample (current_path ex_self2)
                            (timer_get (at_get (at_instant 9)) (timer ex_self2))),
                    calls, cls', self')
           \<and> paths_traversed self'
           \<and> (\<forall>t' c. sample t' c self' = Inr (None, [], c, self')))"
proof -
  have h1: "\<not> paths_traversed ex_self2" by (simp add: ex_defs)
  have h2: "timer_get (at_get (at_instant 9)) (timer ex_self2) > getTotalTime (current_path ex_self2)"
    by (simp add: ex_defs)
  have h3: "current_path_index ex_self2 + 1 \<ge> length (path_group ex_self2)"
    by (simp add: ex_defs)
  from sample_past_last_path[OF h1 h2 h3] h1 h2 h3 show ?thesis by blast
qed

text \<open>
  C3 as stated fails. On the second and last path, 6.5 s into its 3 s, \<open>sample\<close>
  sets \<open>paths_traversed\<close> and returns the path's state at 6.5 s, not \<open>None\<close>.
\<close>

theorem last_sample_returns_state:
  "\<not> paths_traversed ex_self2
   \<and> timer_get (at_get (at_instant 9)) (timer ex_self2) > getTotalTime (current_path ex_self2)
   \<and> current_path_index ex_self2 + 1 = length (path_group ex_self2)
   \<and> sample (at_instant 9) class_body ex_self2
       = Inr (Some (ex_state 2 (13 / 2)), [], class_body, ex_self3)
   \<and> paths_traversed ex_self3"
  by (simp add: ex_sample_plain3) (simp add: ex_defs)

subsection \<open>Cumulative elapsed time\<close>

lemma sample_total_time:
  "\<exists>r calls cls' self'.
     sample t cls self = Inr (r, calls, cls', self')
     \<and> (if current_path_index self' = current_path_index self
         then total_time self' = total_time self
         else current_path_index self' = current_path_index self + 1
              \<and> total_time self' = total_time self + timer_get (at_total t) (timer self)
              \<and> getTotalTime (current_path self) < timer_get (at_get t) (timer self)
              \<and> (at_get t \<le> at_total t \<longrightarrow>
                   getTotalTime (current_path self) < timer_get (at_total t) (timer self)))"
proof (cases "paths_traversed self")
  case True
  then show ?thesis by (simp add: sample_exhausted)
next
  case np: False
  obtain em c1 s1 where g: "get_new_event_marker (at_marker t) cls self = Inr (em, c1, s1)"
    using get_new_event_marker_total by blast
  note fr = get_new_event_marker_frame(3)[OF g]
  have eqs: "current_path_index s1 = current_path_index self" "path_group s1 = path_group self"
    "total_time s1 = total_time self" "timer s1 = timer self"
    by (subst fr, simp)+
  show ?thesis
  proof (cases "timer_get (at_get t) (timer self) > getTotalTime (current_path self)")
    case False
    from sample_within[OF np g False] eqs show ?thesis by simp
  next
    case cross: True
    show ?thesis
    proof (cases "current_path_index s1 + 1 \<ge> length (path_group s1)")
      case True
      then have "move_to_next_path t s1 = s1\<lparr>paths_traversed := True\<rparr>"
        by (rule move_to_next_path_last)
      with sample_crossing[OF np g cross] eqs show ?thesis by simp
    next
      case False
      have mono: "at_get t \<le> at_total t \<longrightarrow>
                   getTotalTime (current_path self) < timer_get (at_total t) (timer self)"
        using cross timer_get_mono[of "at_get t" "at_total t" "timer self"] by auto
      from move_to_next_path_next[OF False] sample_crossing[OF np g cross] eqs cross mono
      show ?thesis by simp
    qed
  qed
qed

lemma sample_steps:
  assumes "sample t cls self = Inr (r, calls, cls', self')"
  shows "self' = self
         \<or> (\<exists>n ms. self' = self\<lparr>iterations := n, self_event_markers := ms\<rparr>)
         \<or> (\<exists>n ms. self' = self\<lparr>iterations := n, self_event_markers := ms, paths_traversed := True\<rparr>)
         \<or> (timer_get (at_get t) (timer self) > getTotalTime (current_path self)
            \<and> current_path_index self + 1 < length (path_group self)
            \<and> current_path_index self' = current_path_index self + 1
            \<and> path_group self' = path_group self
            \<and> current_path self' = path_group self ! (current_path_index self + 1)
            \<and> total_time self' = total_time self + timer_get (at_total t) (timer self)
            \<and> self_event_markers self' = Some (getMarkers (current_path self')))"
proof (cases "paths_traversed self")
  case True
  with assms show ?thesis by (simp add: sample_exhausted)
next
  case np: False
  obtain em c1 s1 where g: "get_new_event_marker (at_marker t) cls self = Inr (em, c1, s1)"
    using get_new_event_marker_total by blast
  note fr = get_new_event_marker_frame(3)[OF g]
  have eqs: "current_path_index s1 = current_path_index self" "path_group s1 = path_group self"
    "total_time s1 = total_time self" "timer s1 = timer self"
    by (subst fr, simp)+
  show ?thesis
  proof (cases "timer_get (at_get t) (timer self) > getTotalTime (current_path self)")
    case False
    from sample_within[OF np g False] assms have "self' = s1\<lparr>iterations := iterations self + 1\<rparr>"
      by simp
    then have "self' = self\<lparr>iterations := iterations self + 1, self_event_markers := self_event_markers s1\<rparr>"
      by (subst (asm) fr) simp
    then show ?thesis by blast
  next
    case cross: True
    show ?thesis
    proof (cases "current_path_index s1 + 1 \<ge> length (path_group s1)")
      case True
      then have "move_to_next_path t s1 = s1\<lparr>paths_traversed := True\<rparr>"
        by (rule move_to_next_path_last)
      with sample_crossing[OF np g cross] assms
      have "self' = s1\<lparr>paths_traversed := True, iterations := iterations s1 + 1\<rparr>" by simp
      then have "self' = self\<lparr>iterations := iterations s1 + 1, self_event_markers := self_event_markers s1,
                   paths_traversed := True\<rparr>"
        by (subst (asm) fr) simp
      then show ?thesis by blast
    next
      case False
      from move_to_next_path_next[OF False] sample_crossing[OF np g cross] assms eqs cross False
      show ?thesis by simp
    qed
  qed
qed

lemma completed_durations_Suc:
  assumes "on_path self"
    and "current_path_index self' = current_path_index self + 1"
    and "path_group self' = path_group self"
  shows "completed_durations self' = completed_durations self + getTotalTime (current_path self)"
  using assms by (simp add: completed_durations_def on_path_def take_Suc_conv_app_nth)

lemma completed_durations_le:
  "time_inv self \<Longrightarrow> completed_durations self \<le> total_time self"
  by (cases "current_path_index self = 0") (simp_all add: time_inv_def completed_durations_def)

lemma completed_durations_frame:
  "completed_durations (self\<lparr>iterations := n, self_event_markers := ms\<rparr>) = completed_durations self"
  "completed_durations (self\<lparr>iterations := n, self_event_markers := ms, paths_traversed := b\<rparr>)
     = completed_durations self"
  "completed_durations (self\<lparr>timer := tm\<rparr>) = completed_durations self"
  by (simp_all add: completed_durations_def)

lemma sample_time_inv:
  assumes "sample t cls self = Inr (r, calls, cls', self')"
    and "time_inv self" and "at_get t \<le> at_total t"
  shows "time_inv self'"
proof -
  from sample_steps[OF assms(1)] consider
    "self' = self"
    | n ms where "self' = self\<lparr>iterations := n, self_event_markers := ms\<rparr>"
    | n ms where "self' = self\<lparr>iterations := n, self_event_markers := ms, paths_traversed := True\<rparr>"
    | "timer_get (at_get t) (timer self) > getTotalTime (current_path self)"
      "current_path_index self + 1 < length (path_group self)"
      "current_path_index self' = current_path_index self + 1"
      "path_group self' = path_group self"
      "current_path self' = path_group self ! (current_path_index self + 1)"
      "total_time self' = total_time self + timer_get (at_total t) (timer self)"
    by blast
  then show ?thesis
  proof cases
    case 1
    with assms(2) show ?thesis by simp
  next
    case 2
    with assms(2) show ?thesis by (simp add: time_inv_def on_path_def completed_durations_frame)
  next
    case 3
    with assms(2) show ?thesis by (simp add: time_inv_def on_path_def completed_durations_frame)
  next
    case 4
    from assms(2) have op: "on_path self" by (simp add: time_inv_def)
    have le: "completed_durations self \<le> total_time self"
      using assms(2) by (rule completed_durations_le)
    have "getTotalTime (current_path self) < timer_get (at_total t) (timer self)"
      using 4(1) timer_get_mono[OF assms(3), of "timer self"] by simp
    with le completed_durations_Suc[OF op 4(3) 4(4)] 4(6)
    have "completed_durations self' < total_time self'" by simp
    moreover have "on_path self'" using 4 by (simp add: on_path_def)
    ultimately show ?thesis using 4(3) by (simp add: time_inv_def)
  qed
qed

lemma reset_time_inv: "reset self = Inr s \<Longrightarrow> time_inv s"
  by (auto simp: reset_def Let_def time_inv_def on_path_def split: list.splits)

lemma step_time_inv:
  assumes "step x (cls, self) = Inr (obs, cls', self')" and "time_inv self" and "clock_ok x"
  shows "time_inv self'"
proof (cases x)
  case Reset
  with assms(1) show ?thesis by (auto split: sum.splits intro: reset_time_inv)
next
  case (StartTimer now)
  with assms(1,2) show ?thesis
    by (auto simp: start_timer_def time_inv_def on_path_def completed_durations_frame)
next
  case (Sample t)
  with assms(1) obtain r calls where "sample t cls self = Inr (r, calls, cls', self')"
    by (auto split: sum.splits)
  from sample_time_inv[OF this assms(2)] assms(3) Sample show ?thesis by simp
next
  case (On n f)
  with assms(1,2) show ?thesis by auto
next
  case (OnStop f)
  with assms(1,2) show ?thesis by auto
qed

lemma run_time_inv:
  assumes "run ops (cls, self) = (obs, Inr (cls', self'))" and "time_inv self" and "list_all clock_ok ops"
  shows "time_inv self'"
  using assms
proof (induction ops arbitrary: cls self obs)
  case Nil
  then show ?case by simp
next
  case (Cons x xs)
  from Cons.prems(1) obtain o1 c1 s1 where st: "step x (cls, self) = Inr (o1, c1, s1)"
    by (cases "step x (cls, self)") auto
  with Cons.prems(1) obtain o2 where r: "run xs (c1, s1) = (o2, Inr (cls', self'))"
    by (cases "run xs (c1, s1)") auto
  from Cons.prems(3) have ok: "clock_ok x" "list_all clock_ok xs" by simp_all
  from step_time_inv[OF st Cons.prems(2) ok(1)] have "time_inv s1" .
  from Cons.IH[OF r this ok(2)] show ?case .
qed

lemma init_time_inv: "init pg = Inr s \<Longrightarrow> time_inv s"
  by (auto simp: init_def split: list.splits intro: reset_time_inv)

lemma reachable_time_inv:
  assumes "construct_and_run pg ops cls = (obs, Inr (cls', self'))" and "list_all clock_ok ops"
  shows "time_inv self'"
proof -
  from assms(1) obtain s where i: "init pg = Inr s" and r: "run ops (cls, s) = (obs, Inr (cls', self'))"
    by (cases "init pg") (auto simp: construct_and_run_def)
  from run_time_inv[OF r init_time_inv[OF i] assms(2)] show ?thesis .
qed

lemma ex_run1:
  "construct_and_run ex_group [StartTimer 0, Sample (at_instant (5 / 2))] class_body
     = ([Returned (Some (ex_state 2 (5 / 2)))], Inr (class_body, ex_self1))"
  by (simp add: construct_and_run_def ex_init ex_sample_plain1)

text \<open>
  C4 (as amended). Every call of \<open>sample\<close> returns, and it changes \<open>total_time\<close>
  only when it moves to the next path: then it adds the timer's reading at that
  moment, which is more than the completed path's total time whenever the clock
  has not run backwards since the call started (the call moves on only after the
  reading has exceeded the total time). Nothing is added when the last path ends.
  So in every state reached from construction, by any calls during which the
  clock does not run backwards, \<open>total_time\<close> is 0 while the traverser is on the
  first path and strictly more than the sum of the completed paths' total times
  afterwards.
\<close>

theorem transition_adds_clock_reading:
  "(\<exists>r calls cls' self'.
      sample t cls self = Inr (r, calls, cls', self')
      \<and> (if current_path_index self' = current_path_index self
          then total_time self' = total_time self
          else current_path_index self' = current_path_index self + 1
               \<and> total_time self' = total_time self + timer_get (at_total t) (timer self)
               \<and> getTotalTime (current_path self) < timer_get (at_get t) (timer self)
               \<and> (at_get t \<le> at_total t \<longrightarrow>
                    getTotalTime (current_path self) < timer_get (at_total t) (timer self))))
   \<and> (\<forall>obs cls' self'.
        construct_and_run pg ops cls0 = (obs, Inr (cls', self')) \<and> list_all clock_ok ops \<longrightarrow>
        (if current_path_index self' = 0 then total_time self' = 0
         else completed_durations self' < total_time self'))"
proof
  show "\<exists>r calls cls' self'.
      sample t cls self = Inr (r, calls, cls', self')
      \<and> (if current_path_index self' = current_path_index self
          then total_time self' = total_time self
          else current_path_index self' = current_path_index self + 1
               \<and> total_time self' = total_time self + timer_get (at_total t) (timer self)
               \<and> getTotalTime (current_path self) < timer_get (at_get t) (timer self)
               \<and> (at_get t \<le> at_total t \<longrightarrow>
                    getTotalTime (current_path self) < timer_get (at_total t) (timer self)))"
    by (rule sample_total_time)
next
  show "\<forall>obs cls' self'.
        construct_and_run pg ops cls0 = (obs, Inr (cls', self')) \<and> list_all clock_ok ops \<longrightarrow>
        (if current_path_index self' = 0 then total_time self' = 0
         else completed_durations self' < total_time self')"
  proof (intro allI impI)
    fix obs cls' self'
    assume "construct_and_run pg ops cls0 = (obs, Inr (cls', self')) \<and> list_all clock_ok ops"
    then have "time_inv self'" using reachable_time_inv by blast
    then show "if current_path_index self' = 0 then total_time self' = 0
         else completed_durations self' < total_time self'"
      by (simp add: time_inv_def)
  qed
qed

theorem transition_adds_clock_reading_witness:
  "at_get (at_instant (5 / 2)) \<le> at_total (at_instant (5 / 2))
   \<and> sample (at_instant (5 / 2)) class_body (start_timer 0 ex_self0)
       = Inr (Some (ex_state 2 (5 / 2)), [], class_body, ex_self1)
   \<and> current_path_index ex_self1 = current_path_index (start_timer 0 ex_self0) + 1
   \<and> total_time ex_self1
       = total_time (start_timer 0 ex_self0)
         + timer_get (at_total (at_instant (5 / 2))) (timer (start_timer 0 ex_self0))
   \<and> getTotalTime (current_path (start_timer 0 ex_self0))
       < timer_get (at_total (at_instant (5 / 2))) (timer (start_timer 0 ex_self0))
   \<and> construct_and_run ex_group [StartTimer 0, Sample (at_instant (5 / 2))] class_body
       = ([Returned (Some (ex_state 2 (5 / 2)))], Inr (class_body, ex_self1))
   \<and> list_all clock_ok [StartTimer 0, Sample (at_instant (5 / 2))]
   \<and> completed_durations ex_self1 < total_time ex_self1"
proof -
  note T = transition_adds_clock_reading[of "at_instant (5 / 2)" class_body "start_timer 0 ex_self0"
      ex_group "[StartTimer 0, Sample (at_instant (5 / 2))]" class_body]
  have mono: "at_get (at_instant (5 / 2)) \<le> at_total (at_instant (5 / 2))"
    by (simp add: at_instant_def)
  have ok: "list_all clock_ok [StartTimer 0, Sample (at_instant (5 / 2))]"
    by (simp add: at_instant_def)
  have idx: "current_path_index ex_self1 \<noteq> current_path_index (start_timer 0 ex_self0)"
    "current_path_index ex_self1 \<noteq> 0"
    by (simp_all add: ex_defs start_timer_def)
  from T obtain r calls cls' self' where
    s: "sample (at_instant (5 / 2)) class_body (start_timer 0 ex_self0) = Inr (r, calls, cls', self')"
    and c: "if current_path_index self' = current_path_index (start_timer 0 ex_self0)
          then total_time self' = total_time (start_timer 0 ex_self0)
          else current_path_index self' = current_path_index (start_timer 0 ex_self0) + 1
               \<and> total_time self' = total_time (start_timer 0 ex_self0)
                    + timer_get (at_total (at_instant (5 / 2))) (timer (start_timer 0 ex_self0))
               \<and> getTotalTime (current_path (start_timer 0 ex_self0))
                    < timer_get (at_get (at_instant (5 / 2))) (timer (start_timer 0 ex_self0))
               \<and> (at_get (at_instant (5 / 2)) \<le> at_total (at_instant (5 / 2)) \<longrightarrow>
                    getTotalTime (current_path (start_timer 0 ex_self0))
                      < timer_get (at_total (at_instant (5 / 2))) (timer (start_timer 0 ex_self0)))"
    by (elim conjE exE)
  from s have "self' = ex_self1" by (simp add: ex_sample_plain1)
  with c idx(1) mono have step:
    "current_path_index ex_self1 = current_path_index (start_timer 0 ex_self0) + 1
     \<and> total_time ex_self1 = total_time (start_timer 0 ex_self0)
          + timer_get (at_total (at_instant (5 / 2))) (timer (start_timer 0 ex_self0))
     \<and> getTotalTime (current_path (start_timer 0 ex_self0))
          < timer_get (at_total (at_instant (5 / 2))) (timer (start_timer 0 ex_self0))"
    by simp
  from T ex_run1 ok have "if current_path_index ex_self1 = 0 then total_time ex_self1 = 0
         else completed_durations ex_self1 < total_time ex_self1"
    by blast
  with idx(2) have "completed_durations ex_self1 < total_time ex_self1" by simp
  with step mono ok ex_run1 ex_sample_plain1 show ?thesis by simp
qed

text \<open>
  C4 as stated fails. The first path lasts 2 s; the call of \<open>sample\<close> made 2.5 s
  after the timer started moves to the second path and adds 2.5 s to
  \<open>total_time\<close>, not 2 s.
\<close>

theorem transition_adds_more_than_duration:
  "sample (at_instant (5 / 2)) class_body (start_timer 0 ex_self0)
     = Inr (Some (ex_state 2 (5 / 2)), [], class_body, ex_self1)
   \<and> current_path_index (start_timer 0 ex_self0) = 0
   \<and> current_path_index ex_self1 = 1
   \<and> getTotalTime (current_path (start_timer 0 ex_self0)) = 2
   \<and> total_time (start_timer 0 ex_self0) = 0
   \<and> total_time ex_self1 = 5 / 2
   \<and> total_time ex_self1
       \<noteq> total_time (start_timer 0 ex_self0) + getTotalTime (current_path (start_timer 0 ex_self0))"
  by (simp add: ex_sample_plain1) (simp add: ex_defs start_timer_def)

subsection \<open>The state after reset\<close>

text \<open>
  C5 (as amended). On a traverser with a path group that is not empty, \<open>reset\<close>
  returns, and afterwards the path index is 0, the current path is the first one,
  the timer reads 0, \<open>paths_traversed\<close> is false, the stop event is the first
  path's, and \<open>total_time\<close> and \<open>iterations\<close> are 0. The timer is a new one that
  is not running: it is \<open>start_timer\<close> (which \<open>execute\<close> calls before every
  \<open>sample\<close>) that starts it, and from then on it reads the time since that start.
\<close>

theorem reset_postcondition:
  assumes "path_group self = p # ps"
  shows "\<exists>s. reset self = Inr s
           \<and> current_path_index s = 0 \<and> current_path s = p \<and> path_group s = path_group self
           \<and> timer_get now (timer s) = 0
           \<and> \<not> paths_traversed s
           \<and> stop_event s = getEndStopEvent p
           \<and> total_time s = 0 \<and> iterations s = 0
           \<and> \<not> is_running (timer s)
           \<and> is_running (timer (start_timer now s))
           \<and> timer_get later (timer (start_timer now s)) = later - now"
  using assms by (simp add: reset_def Let_def new_Timer_def start_timer_def)

theorem reset_postcondition_witness:
  "path_group ex_self3 = ex_path0 # [ex_path1]
   \<and> (\<exists>s. reset ex_self3 = Inr s
           \<and> current_path_index s = 0 \<and> current_path s = ex_path0
           \<and> timer_get 20 (timer s) = 0
           \<and> \<not> paths_traversed s
           \<and> stop_event s = getEndStopEvent ex_path0
           \<and> total_time s = 0
           \<and> \<not> is_running (timer s)
           \<and> is_running (timer (start_timer 20 s))
           \<and> timer_get 21 (timer (start_timer 20 s)) = 21 - 20)"
proof -
  have h: "path_group ex_self3 = ex_path0 # [ex_path1]" by (simp add: ex_defs)
  from reset_postcondition[OF h, of 20 21] h show ?thesis by blast
qed

lemma ex_reset: "reset ex_self0 = Inr ex_self0"
  by (simp add: reset_def get_initial_state_def new_Timer_def Let_def ex_defs)

text \<open>
  C5 as stated fails. After \<open>__init__\<close> and after a further \<open>reset\<close> of the example
  traverser the timer is not running, and the pending marker list is empty while
  the first path has a marker.
\<close>

theorem reset_leaves_clock_stopped:
  "init ex_group = Inr ex_self0
   \<and> reset ex_self0 = Inr ex_self0
   \<and> \<not> is_running (timer ex_self0)
   \<and> get_event_markers class_body ex_self0 = []
   \<and> getMarkers (path_group ex_self0 ! 0) = [ex_marker0]"
  by (simp add: ex_init ex_reset) (simp add: ex_defs get_event_markers_def)

subsection \<open>Stop callbacks\<close>

text \<open>
  C2, evaluated where it fails. Two stop callbacks are registered, \<open>s1\<close> then
  \<open>s2\<close>, and the first path lasts 2 s. The call of \<open>sample\<close> made 2.5 s after the
  timer started crosses the end of the path: it invokes \<open>s1\<close> and removes it, and
  the loop then ends, its position being past the end of the shortened list.
  \<open>s2\<close> is neither invoked nor removed.
\<close>

theorem second_stop_callback_skipped:
  "construct_and_run ex_group [OnStop ''s1'', OnStop ''s2'', StartTimer 0, Sample (at_instant (5 / 2))]
     class_body
     = ([Invoked (StopCall ''s1'' (ex_stop ''first'')), Returned (Some (ex_state 2 (5 / 2)))],
        Inr (class_body\<lparr>stop_event_callbacks := [''s2'']\<rparr>, ex_self1))"
  by (simp add: construct_and_run_def ex_init)
     (simp add: code_defs ex_defs ex_stop_loop)

subsection \<open>What instances share\<close>

lemma sample_class_markers:
  assumes "sample t cls self = Inr (r, calls, cls', self')"
    and "self_event_markers self \<noteq> None \<or> event_markers cls = []"
  shows "event_markers cls' = event_markers cls"
proof (cases "paths_traversed self")
  case True
  with assms(1) show ?thesis by (simp add: sample_exhausted)
next
  case np: False
  obtain em c1 s1 where g: "get_new_event_marker (at_marker t) cls self = Inr (em, c1, s1)"
    using get_new_event_marker_total by blast
  have "event_markers (fst (pop_event_marker cls self)) = event_markers cls"
    using assms(2) by (auto simp: pop_event_marker_def split: option.splits)
  with g have c1: "event_markers c1 = event_markers cls"
    by (auto simp: get_new_event_marker_cases prod_eq_iff split: list.splits if_splits)
  show ?thesis
    using sample_within[OF np g] sample_crossing[OF np g] assms(1) c1
    by (cases "timer_get (at_get t) (timer self) > getTotalTime (current_path self)") auto
qed

lemma sample_moves_own_markers:
  assumes "sample t cls self = Inr (r, calls, cls', self')"
    and "current_path_index self' \<noteq> current_path_index self"
  shows "self_event_markers self' = Some (getMarkers (current_path self'))"
  using sample_steps[OF assms(1)] assms(2) by auto

lemma init_nonempty:
  "\<exists>s. init (p # ps) = Inr s \<and> self_event_markers s = None"
  by (simp add: init_def reset_def unset_traverser_def Let_def)

text \<open>
  C6 (as amended). The event-callback table and the stop-callback list are state
  of the class, which every instance reads: whatever instance \<open>a\<close> makes a call
  through, \<open>on\<close> binds the name and \<open>on_stop\<close> appends the callback in the class
  state, \<open>reset\<close> leaves the class state as it is, a \<open>sample\<close> that invokes an
  event callback for a marker leaves the class table without the bindings of that
  marker's names, and constructing a traverser leaves the class state as it is. The
  pending marker list is different. A new instance has no list of its own and reads
  the class list, which no call changes as long as it is empty or the caller has
  its own list; a \<open>sample\<close> that moves to the next path gives the instance its own
  list, that path's markers; and the list of an instance \<open>b\<close> that has its own is
  the same before and after any call made through \<open>a\<close>. So a marker one instance
  consumes stays pending for the others.
\<close>

theorem class_tables_shared:
  assumes "step x (cls, a) = Inr (obs, cls', a')"
  shows "(\<forall>n f. x = On n f \<longrightarrow>
            event_callbacks cls' = (event_callbacks cls)(n \<mapsto> f)
            \<and> stop_event_callbacks cls' = stop_event_callbacks cls)
       \<and> (\<forall>f. x = OnStop f \<longrightarrow>
            stop_event_callbacks cls' = stop_event_callbacks cls @ [f]
            \<and> event_callbacks cls' = event_callbacks cls)
       \<and> (x = Reset \<longrightarrow> cls' = cls)
       \<and> (\<forall>cb m. Invoked (EventCall cb m) \<in> set obs \<longrightarrow>
            event_callbacks cls' = event_callbacks cls |` (- set (em_names m)))
       \<and> (self_event_markers a \<noteq> None \<or> event_markers cls = [] \<longrightarrow>
            event_markers cls' = event_markers cls)
       \<and> (\<forall>t. x = Sample t \<and> current_path_index a' \<noteq> current_path_index a \<longrightarrow>
            self_event_markers a' = Some (getMarkers (current_path a')))
       \<and> (self_event_markers b \<noteq> None \<longrightarrow> get_event_markers cls' b = get_event_markers cls b)
       \<and> (\<exists>s. construct_and_run (p # ps) [] cls = ([], Inr (cls, s)) \<and> self_event_markers s = None)"
proof (intro conjI allI impI)
  fix n f assume "x = On n f"
  with assms show "event_callbacks cls' = (event_callbacks cls)(n \<mapsto> f)"
    and "stop_event_callbacks cls' = stop_event_callbacks cls"
    by (auto simp: on_def)
next
  fix f assume "x = OnStop f"
  with assms show "stop_event_callbacks cls' = stop_event_callbacks cls @ [f]"
    and "event_callbacks cls' = event_callbacks cls"
    by (auto simp: on_stop_def)
next
  assume "x = Reset"
  with assms show "cls' = cls" by (auto split: sum.splits)
next
  fix cb m assume inv: "Invoked (EventCall cb m) \<in> set obs"
  show "event_callbacks cls' = event_callbacks cls |` (- set (em_names m))"
  proof (cases x)
    case (Sample t)
    with assms obtain r calls where s: "sample t cls a = Inr (r, calls, cls', a')"
      and o: "obs = map Invoked calls @ [Returned r]"
      by (auto split: sum.splits)
    from inv o have "EventCall cb m \<in> set calls" by auto
    from sample_event_call(2)[OF s this] show ?thesis .
  qed (use assms inv in \<open>auto split: sum.splits\<close>)
next
  assume own: "self_event_markers a \<noteq> None \<or> event_markers cls = []"
  show "event_markers cls' = event_markers cls"
  proof (cases x)
    case (Sample t)
    with assms obtain r calls where s: "sample t cls a = Inr (r, calls, cls', a')"
      by (auto split: sum.splits)
    from sample_class_markers[OF s own] show ?thesis .
  qed (use assms in \<open>auto simp: on_def on_stop_def split: sum.splits\<close>)
next
  fix t assume "x = Sample t \<and> current_path_index a' \<noteq> current_path_index a"
  with assms obtain r calls where "sample t cls a = Inr (r, calls, cls', a')"
    and "current_path_index a' \<noteq> current_path_index a"
    by (auto split: sum.splits)
  then show "self_event_markers a' = Some (getMarkers (current_path a'))"
    by (rule sample_moves_own_markers)
next
  assume "self_event_markers b \<noteq> None"
  then show "get_event_markers cls' b = get_event_markers cls b"
    by (auto simp: get_event_markers_def)
next
  from init_nonempty[of p ps]
  show "\<exists>s. construct_and_run (p # ps) [] cls = ([], Inr (cls, s)) \<and> self_event_markers s = None"
    by (auto simp: construct_and_run_def)
qed

lemma ex_step2:
  "step (Sample (at_instant 5)) (ex_class1, ex_self1)
     = Inr ([Invoked (EventCall ''f_raise'' ex_marker1), Returned (Some (ex_state 2 (5 / 2)))],
            ex_class2, ex_self2)"
  by (simp add: ex_sample2)

theorem class_tables_shared_witness:
  "step (On ''hold'' ''f_hold'') (ex_class1, ex_self1)
     = Inr ([], on ''hold'' ''f_hold'' ex_class1, ex_self1)
   \<and> event_callbacks (on ''hold'' ''f_hold'' ex_class1)
       = (event_callbacks ex_class1)(''hold'' \<mapsto> ''f_hold'')
   \<and> step (OnStop ''s3'') (ex_class1, ex_self1) = Inr ([], on_stop ''s3'' ex_class1, ex_self1)
   \<and> stop_event_callbacks (on_stop ''s3'' ex_class1) = stop_event_callbacks ex_class1 @ [''s3'']
   \<and> step Reset (ex_class3, ex_self0) = Inr ([], ex_class3, ex_self0)
   \<and> step (Sample (at_instant 5)) (ex_class1, ex_self1)
       = Inr ([Invoked (EventCall ''f_raise'' ex_marker1), Returned (Some (ex_state 2 (5 / 2)))],
              ex_class2, ex_self2)
   \<and> event_callbacks ex_class2 = event_callbacks ex_class1 |` (- set (em_names ex_marker1))
   \<and> self_event_markers ex_self1 \<noteq> None
   \<and> event_markers ex_class2 = event_markers ex_class1
   \<and> get_event_markers ex_class2 ex_self1 = get_event_markers ex_class1 ex_self1
   \<and> step (Sample (at_instant (5 / 2))) (class_body, start_timer 0 ex_self0)
       = Inr ([Returned (Some (ex_state 2 (5 / 2)))], class_body, ex_self1)
   \<and> current_path_index ex_self1 \<noteq> current_path_index (start_timer 0 ex_self0)
   \<and> self_event_markers ex_self1 = Some (getMarkers (current_path ex_self1))"
proof -
  have a: "step (On ''hold'' ''f_hold'') (ex_class1, ex_self1)
             = Inr ([], on ''hold'' ''f_hold'' ex_class1, ex_self1)" by simp
  have b: "step (OnStop ''s3'') (ex_class1, ex_self1) = Inr ([], on_stop ''s3'' ex_class1, ex_self1)"
    by simp
  have c: "step Reset (ex_class3, ex_self0) = Inr ([], ex_class3, ex_self0)"
    by (simp add: ex_reset)
  have own: "self_event_markers ex_self1 \<noteq> None" by (simp add: ex_defs)
  have inv: "Invoked (EventCall ''f_raise'' ex_marker1)
               \<in> set [Invoked (EventCall ''f_raise'' ex_marker1), Returned (Some (ex_state 2 (5 / 2)))]"
    by simp
  from class_tables_shared[OF a, of ex_self1 ex_path0 "[]"]
  have 1: "event_callbacks (on ''hold'' ''f_hold'' ex_class1)
       = (event_callbacks ex_class1)(''hold'' \<mapsto> ''f_hold'')" by blast
  from class_tables_shared[OF b, of ex_self1 ex_path0 "[]"]
  have 2: "stop_event_callbacks (on_stop ''s3'' ex_class1) = stop_event_callbacks ex_class1 @ [''s3'']"
    by blast
  from class_tables_shared[OF ex_step2, of ex_self1 ex_path0 "[]"] inv own
  have 3: "event_callbacks ex_class2 = event_callbacks ex_class1 |` (- set (em_names ex_marker1))"
    and 4: "event_markers ex_class2 = event_markers ex_class1"
    and 5: "get_event_markers ex_class2 ex_self1 = get_event_markers ex_class1 ex_self1"
    by blast+
  have d: "step (Sample (at_instant (5 / 2))) (class_body, start_timer 0 ex_self0)
       = Inr ([Returned (Some (ex_state 2 (5 / 2)))], class_body, ex_self1)"
    by (simp add: ex_sample_plain1)
  have idx: "current_path_index ex_self1 \<noteq> current_path_index (start_timer 0 ex_self0)"
    by (simp add: ex_defs start_timer_def)
  from class_tables_shared[OF d, of ex_self1 ex_path0 "[]"] idx
  have 6: "self_event_markers ex_self1 = Some (getMarkers (current_path ex_self1))"
    by blast
  from a b c ex_step2 own 1 2 3 4 5 d idx 6 show ?thesis by (intro conjI)
qed

text \<open>
  C6 as stated fails. Two traversers built from the example path group and taken to
  the second path by the same calls are both in state \<open>ex_self1\<close>, each with its
  own pending list. One of them samples again and consumes the first marker: its
  list is now the second marker alone, while the other traverser, still in state
  \<open>ex_self1\<close>, has both markers pending. The class list was empty throughout.
\<close>

theorem consumed_marker_not_shared:
  "init ex_group = Inr ex_self0
   \<and> run [StartTimer 0, Sample (at_instant (5 / 2))] (class_body, ex_self0)
       = ([Returned (Some (ex_state 2 (5 / 2)))], Inr (class_body, ex_self1))
   \<and> run [Sample (at_instant 5)] (class_body, ex_self1)
       = ([Returned (Some (ex_state 2 (5 / 2)))], Inr (class_body, ex_self2))
   \<and> get_event_markers class_body ex_self2 = [ex_marker2]
   \<and> get_event_markers class_body ex_self1 = [ex_marker1, ex_marker2]
   \<and> event_markers class_body = []"
  by (simp add: ex_init ex_sample_plain1 ex_sample_plain2)
     (simp add: get_event_markers_def ex_defs)

end
